theory Spec2Isabelle
  imports Main "HOL-Library.Multiset" "HOL-Library.List_Lexorder" "HOL-Library.Char_ord"
begin

section \<open>Migration job orchestration core\<close>

text \<open>
  A shallow embedding of \<^verbatim>\<open>src/modules/models/job_models/migrationJob.ts\<close>
  (class \<^verbatim>\<open>MigrationJob\<close> and \<^verbatim>\<open>CachedCSVContent\<close>) and of
  \<^verbatim>\<open>ApiEngineBase.processCRUDApiJobAsync\<close>. Mutable fields are passed
  explicitly, collaborators whose code is elsewhere are parameters, thrown
  exceptions are values, and a loop that may run forever is a partial function
  whose value \<open>None\<close> means that control never comes back.
\<close>

subsection \<open>JavaScript array primitives\<close>

text \<open>
  \<^verbatim>\<open>Array.prototype.indexOf\<close>: the first position holding the element, or \<open>-1\<close>.
\<close>

fun indexOf :: "'a list \<Rightarrow> 'a \<Rightarrow> int" where
  "indexOf [] x = - 1"
| "indexOf (y # ys) x =
     (if y = x then 0 else (let i = indexOf ys x in if i < 0 then - 1 else i + 1))"

text \<open>
  \<^verbatim>\<open>Array.prototype.splice\<close> clamps its start index: a negative start counts
  from the end (not below \<open>0\<close>), a start beyond the length is the length.
\<close>

definition splice_start :: "int \<Rightarrow> nat \<Rightarrow> nat" where
  "splice_start start len =
     (if start < 0 then nat (max (int len + start) 0) else min (nat start) len)"

text \<open>\<^verbatim>\<open>xs.splice(start, 1)\<close>\<close>

definition splice_remove :: "'a list \<Rightarrow> int \<Rightarrow> 'a list" where
  "splice_remove xs start =
     (let s = splice_start start (length xs) in take s xs @ drop (Suc s) xs)"

text \<open>\<^verbatim>\<open>xs.splice(start, 0, x)\<close>\<close>

definition splice_insert :: "'a list \<Rightarrow> int \<Rightarrow> 'a \<Rightarrow> 'a list" where
  "splice_insert xs start x =
     (let s = splice_start start (length xs) in take s xs @ x # drop s xs)"

subsection \<open>Entity descriptors and tasks\<close>

text \<open>
  \<^verbatim>\<open>ScriptObject\<close> is declared outside the files at hand; the scheduler reads
  the fields below. The parent lists are kept as the lists of the parents' names,
  since the scheduler only ever compares \<^verbatim>\<open>x.name\<close>.
\<close>

record ScriptObject =
  name :: string
  parentLookupObjects :: "string list"
  parentMasterDetailObjects :: "string list"
  allRecords :: bool
  isSpecialObject :: bool
  isObjectWithoutRelationships :: bool
  isReadonlyObject :: bool
  hasComplexExternalId :: bool
  hasAutonumberExternalId :: bool
  isLimitedQuery :: bool
  processAllSource :: bool
  processAllTarget :: bool

text \<open>
  Modelled from the spec: the value of \<^verbatim>\<open>CONSTANTS.RECORD_TYPE_SOBJECT_NAME\<close>
  (declared in \<^verbatim>\<open>statics.ts\<close>, which is not among the sources): the name of the
  type-metadata entity that is processed first.
\<close>

definition RECORD_TYPE_SOBJECT_NAME :: string where
  "RECORD_TYPE_SOBJECT_NAME = ''RecordType''"

text \<open>
  A task is an object with an identity: \<^verbatim>\<open>indexOf\<close> compares tasks by reference.
  \<open>taskId\<close> is that identity (the position of the descriptor in
  \<^verbatim>\<open>script.objects\<close>, one \<^verbatim>\<open>new Task\<close> per position).
\<close>

record Task =
  taskId :: nat
  scriptObject :: ScriptObject

definition sObjectName :: "Task \<Rightarrow> string" where
  "sObjectName t = name (scriptObject t)"

text \<open>\<^verbatim>\<open>TaskOrgData.allRecords\<close> of the source side (\<^verbatim>\<open>isSource = true\<close>).\<close>

definition sourceData_allRecords :: "Task \<Rightarrow> bool" where
  "sourceData_allRecords t = processAllSource (scriptObject t)"

subsection \<open>The scheduler: placement\<close>

text \<open>The first statement of the \<^verbatim>\<open>forEach\<close> body: the two process-all flags.\<close>

definition setProcessAll :: "ScriptObject \<Rightarrow> ScriptObject" where
  "setProcessAll objectToAdd =
     (if allRecords objectToAdd \<or> isSpecialObject objectToAdd
         \<or> isObjectWithoutRelationships objectToAdd
      then objectToAdd\<lparr>processAllSource := True, processAllTarget := True\<rparr>
      else if hasComplexExternalId objectToAdd \<or> hasAutonumberExternalId objectToAdd
      then objectToAdd\<lparr>processAllSource := False, processAllTarget := True\<rparr>
      else objectToAdd\<lparr>processAllSource := False, processAllTarget := False\<rparr>)"

text \<open>
  The backward scan \<^verbatim>\<open>for (existedTaskIndex = tasks.length - 1; existedTaskIndex >=
  lowerIndexForAnyObjects; existedTaskIndex--)\<close>. The first argument is
  \<open>existedTaskIndex + 1\<close>, the last one the current \<^verbatim>\<open>indexToInsert\<close>.
\<close>

fun scanIndexToInsert :: "nat \<Rightarrow> Task list \<Rightarrow> nat \<Rightarrow> string \<Rightarrow> nat \<Rightarrow> nat" where
  "scanIndexToInsert 0 tasks lowerIndexForAnyObjects nm indexToInsert = indexToInsert"
| "scanIndexToInsert (Suc existedTaskIndex) tasks lowerIndexForAnyObjects nm indexToInsert =
     (if existedTaskIndex \<ge> lowerIndexForAnyObjects
      then scanIndexToInsert existedTaskIndex tasks lowerIndexForAnyObjects nm
             (if nm \<in> set (parentLookupObjects (scriptObject (tasks ! existedTaskIndex)))
              then existedTaskIndex else indexToInsert)
      else indexToInsert)"

record PlaceState =
  tasks :: "Task list"
  lowerIndexForAnyObjects :: nat
  lowerIndexForReadonlyObjects :: nat

text \<open>One round of \<^verbatim>\<open>this.script.objects.forEach(objectToAdd => ...)\<close>.\<close>

definition addObject :: "PlaceState \<Rightarrow> nat \<times> ScriptObject \<Rightarrow> PlaceState" where
  "addObject st io =
     (let objectToAdd = setProcessAll (snd io);
          newTask = \<lparr>taskId = fst io, scriptObject = objectToAdd\<rparr>
      in if name objectToAdd = RECORD_TYPE_SOBJECT_NAME
         then st\<lparr>tasks := newTask # tasks st,
                 lowerIndexForAnyObjects := lowerIndexForAnyObjects st + 1,
                 lowerIndexForReadonlyObjects := lowerIndexForReadonlyObjects st + 1\<rparr>
         else if isReadonlyObject objectToAdd
         then st\<lparr>tasks := splice_insert (tasks st) (int (lowerIndexForReadonlyObjects st)) newTask,
                 lowerIndexForAnyObjects := lowerIndexForAnyObjects st + 1\<rparr>
         else if length (tasks st) = 0
         then st\<lparr>tasks := tasks st @ [newTask]\<rparr>
         else st\<lparr>tasks := splice_insert (tasks st)
                   (int (scanIndexToInsert (length (tasks st)) (tasks st)
                           (lowerIndexForAnyObjects st) (name objectToAdd) (length (tasks st))))
                   newTask\<rparr>)"

definition placeTasks :: "ScriptObject list \<Rightarrow> PlaceState" where
  "placeTasks objects =
     foldl addObject
       \<lparr>tasks = [], lowerIndexForAnyObjects = 0, lowerIndexForReadonlyObjects = 0\<rparr>
       (zip [0 ..< length objects] objects)"

subsection \<open>The scheduler: master-detail fix-up\<close>

text \<open>
  \<^verbatim>\<open>___putMasterDetailsBefore\<close> walks a snapshot \<^verbatim>\<open>tempTasks\<close> of the task list
  with two nested index loops while it rearranges \<^verbatim>\<open>self.tasks\<close>. The snapshot never
  changes, so the pairs \<open>(leftTask, rightTask)\<close> are the pairs of the snapshot in
  order: the outer loop takes each element with the elements after it, the inner
  loop walks these. (The outer bound \<^verbatim>\<open>tempTasks.length - 1\<close> only skips the last
  element, whose inner loop is empty.) The state is \<^verbatim>\<open>(self.tasks, swapped)\<close>.
\<close>

definition swapStep :: "Task \<Rightarrow> Task \<Rightarrow> Task list \<times> bool \<Rightarrow> Task list \<times> bool" where
  "swapStep leftTask rightTask st =
     (let rightIsParentMasterDetailOfLeft =
            (sObjectName rightTask \<in> set (parentMasterDetailObjects (scriptObject leftTask)));
          leftTaskIndex = indexOf (fst st) leftTask;
          rightTaskIndex = indexOf (fst st) rightTask
      in if rightIsParentMasterDetailOfLeft
         then (splice_insert (splice_remove (fst st) rightTaskIndex) leftTaskIndex rightTask, True)
         else st)"

fun rightLoop :: "Task \<Rightarrow> Task list \<Rightarrow> Task list \<times> bool \<Rightarrow> Task list \<times> bool" where
  "rightLoop leftTask [] st = st"
| "rightLoop leftTask (rightTask # rest) st = rightLoop leftTask rest (swapStep leftTask rightTask st)"

fun leftLoop :: "Task list \<Rightarrow> Task list \<times> bool \<Rightarrow> Task list \<times> bool" where
  "leftLoop [] st = st"
| "leftLoop (leftTask # rest) st = leftLoop rest (rightLoop leftTask rest st)"

definition putMasterDetailsBefore :: "Task list \<Rightarrow> Task list \<times> bool" where
  "putMasterDetailsBefore tasks0 = leftLoop tasks0 (tasks0, False)"

text \<open>
  The driver \<^verbatim>\<open>for (let iteration = 0; iteration < 10 || !swapped; iteration++)
  swapped = ___putMasterDetailsBefore()\<close>. Nothing bounds the number of rounds, so
  the loop is a partial function: \<open>None\<close> is a loop that never ends.
\<close>

partial_function (option) fixupLoop :: "nat \<Rightarrow> bool \<Rightarrow> Task list \<Rightarrow> Task list option" where
  "fixupLoop iteration swapped ts =
     (if iteration < 10 \<or> \<not> swapped
      then fixupLoop (iteration + 1) (snd (putMasterDetailsBefore ts)) (fst (putMasterDetailsBefore ts))
      else Some ts)"

text \<open>
  The loop state \<^verbatim>\<open>(self.tasks, swapped)\<close> after \<open>n\<close> further rounds of the
  fix-up pass.
\<close>

fun fixupRounds :: "nat \<Rightarrow> Task list \<times> bool \<Rightarrow> Task list \<times> bool" where
  "fixupRounds 0 st = st"
| "fixupRounds (Suc n) st = fixupRounds n (putMasterDetailsBefore (fst st))"

subsection \<open>The scheduler: query order\<close>

text \<open>
  The two \<^verbatim>\<open>forEach\<close> loops that fill \<^verbatim>\<open>queryTasks\<close>: the first pushes the
  fetch-all and limited-query tasks, the second every task that
  \<^verbatim>\<open>queryTasks.indexOf\<close> does not find yet.
\<close>

definition isQueryFirst :: "Task \<Rightarrow> bool" where
  "isQueryFirst task = (sourceData_allRecords task \<or> isLimitedQuery (scriptObject task))"

definition pushQueryFirst :: "Task list \<Rightarrow> Task \<Rightarrow> Task list" where
  "pushQueryFirst queryTasks task = (if isQueryFirst task then queryTasks @ [task] else queryTasks)"

definition pushQueryRest :: "Task list \<Rightarrow> Task \<Rightarrow> Task list" where
  "pushQueryRest queryTasks task =
     (if indexOf queryTasks task < 0 then queryTasks @ [task] else queryTasks)"

definition makeQueryTasks :: "Task list \<Rightarrow> Task list" where
  "makeQueryTasks ts = foldl pushQueryRest (foldl pushQueryFirst [] ts) ts"

record MigrationJob =
  job_tasks :: "Task list"
  job_queryTasks :: "Task list"

text \<open>
  \<^verbatim>\<open>MigrationJob.setup\<close> on a fresh job (both lists empty): placement, fix-up,
  query order. \<open>None\<close>: the call does not return.
\<close>

definition MigrationJob_setup :: "ScriptObject list \<Rightarrow> MigrationJob option" where
  "MigrationJob_setup objects =
     (case fixupLoop 0 True (tasks (placeTasks objects)) of
        None \<Rightarrow> None
      | Some ts \<Rightarrow> Some \<lparr>job_tasks = ts, job_queryTasks = makeQueryTasks ts\<rparr>)"

subsection \<open>Retrieval passes\<close>

datatype retrieveMode = Forwards | Backwards | Target

text \<open>
  \<^verbatim>\<open>task.retrieveRecords(queryMode, reversed)\<close> belongs to the task class, which is
  not among the sources: it is the parameter \<open>retrieve\<close>, acting on the state \<open>'w\<close>
  of everything outside the coordinator and returning whether records came back.
  One \<^verbatim>\<open>for (index ...) retrieved = await task.retrieveRecords(...) || retrieved\<close>
  loop over \<^verbatim>\<open>queryTasks\<close>; the state is the outside world, the calls made so far
  and \<^verbatim>\<open>retrieved\<close>. (The logger lines are left out.)
\<close>

type_synonym retrieveCall = "Task \<times> retrieveMode \<times> bool"

fun retrievePass ::
  "(Task \<Rightarrow> retrieveMode \<Rightarrow> bool \<Rightarrow> 'w \<Rightarrow> bool \<times> 'w) \<Rightarrow> retrieveMode \<Rightarrow> bool \<Rightarrow> Task list
     \<Rightarrow> 'w \<times> retrieveCall list \<times> bool \<Rightarrow> 'w \<times> retrieveCall list \<times> bool" where
  "retrievePass retrieve queryMode reversed [] st = st"
| "retrievePass retrieve queryMode reversed (task # rest) st =
     (let r = retrieve task queryMode reversed (fst st)
      in retrievePass retrieve queryMode reversed rest
           (snd r, fst (snd st) @ [(task, queryMode, reversed)], fst r \<or> snd (snd st)))"

text \<open>\<^verbatim>\<open>retrieved = false\<close> between two loops.\<close>

definition resetRetrieved :: "'w \<times> retrieveCall list \<times> bool \<Rightarrow> 'w \<times> retrieveCall list \<times> bool" where
  "resetRetrieved st = (fst st, fst (snd st), False)"

text \<open>\<^verbatim>\<open>MigrationJob.retrieveRecords\<close>: the final world and the calls made, in order.\<close>

definition retrieveRecords ::
  "(Task \<Rightarrow> retrieveMode \<Rightarrow> bool \<Rightarrow> 'w \<Rightarrow> bool \<times> 'w) \<Rightarrow> Task list \<Rightarrow> 'w \<Rightarrow> 'w \<times> retrieveCall list" where
  "retrieveRecords retrieve queryTasks w =
     (let step1 = retrievePass retrieve Forwards False queryTasks (w, [], False);
          pass1 = retrievePass retrieve Backwards False queryTasks (resetRetrieved step1);
          pass2 = retrievePass retrieve Backwards False queryTasks (resetRetrieved pass1);
          pass3 = retrievePass retrieve Forwards True queryTasks (resetRetrieved pass2);
          pass4 = retrievePass retrieve Forwards True queryTasks (resetRetrieved pass3);
          step3 = retrievePass retrieve Target False queryTasks (resetRetrieved pass4)
      in (fst step3, fst (snd step3)))"

subsection \<open>Update passes and missing parent lookups\<close>

record IMissingParentLookupRecordCsvRow =
  dateUpdate :: string
  childLookupObject :: string
  childLookupField :: string
  childExternalIdField :: string
  parentLookupObject :: string
  parentExternalIdField :: string
  missingParentExternalIdValue :: string

type_synonym csv_row = "(string \<times> string) list"

record ProcessedData =
  recordsToUpdate :: "csv_row list"
  recordsToInsert :: "csv_row list"
  missingParentLookups :: "IMissingParentLookupRecordCsvRow list"

datatype updateMode = UpdateForwards | UpdateBackwards

datatype updateEvent =
    AbortPrompt string nat
  | Warn string nat
  | SaveCSVFile string "IMissingParentLookupRecordCsvRow list"

datatype jobError = CommandAbortedByUser

record UpdateState =
  allMissingParentLookups :: "IMissingParentLookupRecordCsvRow list"
  noAbortPrompt :: bool
  events :: "updateEvent list"

text \<open>
  The value of \<^verbatim>\<open>CONSTANTS.MISSING_PARENT_LOOKUP_RECORDS_ERRORS_FILENAME\<close> is
  declared in \<^verbatim>\<open>statics.ts\<close>, which is not among the sources; nothing below
  depends on the value chosen here.
\<close>

definition MISSING_PARENT_LOOKUP_RECORDS_ERRORS_FILENAME :: string where
  "MISSING_PARENT_LOOKUP_RECORDS_ERRORS_FILENAME = ''MissingParentRecordsReport.csv''"

text \<open>\<^verbatim>\<open>self.saveCSVFileAsync(fileName, allMissingParentLookups)\<close>\<close>

definition saveMissingParentLookups :: "UpdateState \<Rightarrow> UpdateState" where
  "saveMissingParentLookups st =
     st\<lparr>events := events st @
          [SaveCSVFile MISSING_PARENT_LOOKUP_RECORDS_ERRORS_FILENAME (allMissingParentLookups st)]\<rparr>"

text \<open>
  Modelled from the spec: \<^verbatim>\<open>Common.abortWithPrompt\<close> (in \<^verbatim>\<open>common.ts\<close>, not among
  the sources) is the abort-prompt collaborator, "continue-or-abort": it puts the
  question, and a negative answer runs the given \<^verbatim>\<open>onBeforeAbortAsync\<close> action and
  raises the job-abort condition. The answer is the parameter \<open>askContinue\<close>.
\<close>

definition abortWithPrompt ::
  "(string \<Rightarrow> nat \<Rightarrow> bool) \<Rightarrow> (UpdateState \<Rightarrow> UpdateState) \<Rightarrow> string \<Rightarrow> nat \<Rightarrow> UpdateState
     \<Rightarrow> jobError \<times> UpdateState + UpdateState" where
  "abortWithPrompt askContinue onBeforeAbortAsync sObjectName0 missing st =
     (let st1 = st\<lparr>events := events st @ [AbortPrompt sObjectName0 missing]\<rparr>
      in if askContinue sObjectName0 missing then Inr st1
         else Inl (CommandAbortedByUser, onBeforeAbortAsync st1))"

definition promptToAbort ::
  "(string \<Rightarrow> nat \<Rightarrow> bool) \<Rightarrow> ProcessedData \<Rightarrow> string \<Rightarrow> UpdateState
     \<Rightarrow> jobError \<times> UpdateState + UpdateState" where
  "promptToAbort askContinue data sObjectName0 st =
     abortWithPrompt askContinue saveMissingParentLookups sObjectName0
       (length (missingParentLookups data)) st"

definition warn :: "ProcessedData \<Rightarrow> string \<Rightarrow> UpdateState \<Rightarrow> UpdateState" where
  "warn data sObjectName0 st =
     st\<lparr>events := events st @ [Warn sObjectName0 (length (missingParentLookups data))]\<rparr>"

text \<open>
  The callback that \<^verbatim>\<open>updateRecords\<close> hands to \<^verbatim>\<open>task.updateRecords\<close> (the same
  closure body in both passes).
\<close>

definition warnUserCallback ::
  "(string \<Rightarrow> nat \<Rightarrow> bool) \<Rightarrow> Task \<Rightarrow> ProcessedData \<Rightarrow> UpdateState
     \<Rightarrow> jobError \<times> UpdateState + UpdateState" where
  "warnUserCallback askContinue task data st =
     (let st1 = st\<lparr>allMissingParentLookups :=
                     allMissingParentLookups st @ missingParentLookups data\<rparr>
      in if noAbortPrompt st1 then Inr (warn data (sObjectName task) st1)
         else (case promptToAbort askContinue data (sObjectName task) st1 of
                 Inl e \<Rightarrow> Inl e
               | Inr st2 \<Rightarrow> Inr (st2\<lparr>noAbortPrompt := True\<rparr>)))"

text \<open>A sequential loop of awaited steps; an exception ends it.\<close>

fun forEachAsync :: "('a \<Rightarrow> 's \<Rightarrow> 'e + 's) \<Rightarrow> 'a list \<Rightarrow> 's \<Rightarrow> 'e + 's" where
  "forEachAsync f [] st = Inr st"
| "forEachAsync f (x # xs) st =
     (case f x st of Inl e \<Rightarrow> Inl e | Inr st' \<Rightarrow> forEachAsync f xs st')"

text \<open>
  Modelled from the spec: \<^verbatim>\<open>MigrationJobTask.updateRecords\<close> (in
  \<^verbatim>\<open>migrationJobTask.ts\<close>, not among the sources) builds its batches with the
  task's own diff logic and reports to the callback each processed data set whose
  missing-lookup list is not empty. The data sets a task produces in a pass are the
  parameter \<open>processed\<close> (tasks are distinct objects, each called once per pass).
\<close>

definition reported :: "ProcessedData list \<Rightarrow> ProcessedData list" where
  "reported datas = filter (\<lambda>data. missingParentLookups data \<noteq> []) datas"

definition task_updateRecords ::
  "(updateMode \<Rightarrow> Task \<Rightarrow> ProcessedData list) \<Rightarrow> (string \<Rightarrow> nat \<Rightarrow> bool) \<Rightarrow> updateMode \<Rightarrow> Task
     \<Rightarrow> UpdateState \<Rightarrow> jobError \<times> UpdateState + UpdateState" where
  "task_updateRecords processed askContinue updateMode0 task st =
     forEachAsync (warnUserCallback askContinue task) (reported (processed updateMode0 task)) st"

text \<open>
  \<^verbatim>\<open>MigrationJob.updateRecords\<close>: the forward pass, the backward pass when the target
  is an org, then the report file. \<open>Inl\<close> carries the state at the moment the abort
  was raised. (The counting of processed records only feeds logger lines, which
  are left out.)
\<close>

definition updateRecords ::
  "(updateMode \<Rightarrow> Task \<Rightarrow> ProcessedData list) \<Rightarrow> (string \<Rightarrow> nat \<Rightarrow> bool) \<Rightarrow> bool \<Rightarrow> Task list
     \<Rightarrow> jobError \<times> UpdateState + UpdateState" where
  "updateRecords processed askContinue targetIsOrg ts =
     (case forEachAsync (task_updateRecords processed askContinue UpdateForwards) ts
             \<lparr>allMissingParentLookups = [], noAbortPrompt = False, events = []\<rparr> of
        Inl e \<Rightarrow> Inl e
      | Inr st1 \<Rightarrow>
          (case (if targetIsOrg
                 then forEachAsync (task_updateRecords processed askContinue UpdateBackwards) ts st1
                 else Inr st1) of
             Inl e \<Rightarrow> Inl e
           | Inr st2 \<Rightarrow> Inr (saveMissingParentLookups st2)))"

subsection \<open>The CSV record cache\<close>

text \<open>
  A JavaScript \<^verbatim>\<open>Map\<close> iterates in insertion order: the two-level cache is an
  association list of association lists. \<^verbatim>\<open>idCounter\<close> is a JavaScript number
  that holds a non-negative integer.
\<close>

record CachedCSVContent =
  csvDataCacheMap :: "(string \<times> (string \<times> csv_row) list) list"
  updatedFilenames :: "string set"
  idCounter :: nat

definition clear :: CachedCSVContent where
  "clear = \<lparr>csvDataCacheMap = [], updatedFilenames = {}, idCounter = 1\<rparr>"

text \<open>\<^verbatim>\<open>String(num)\<close> for a natural number: its decimal digits.\<close>

definition digitChar :: "nat \<Rightarrow> char" where
  "digitChar d = char_of (48 + d)"

fun numberToString :: "nat \<Rightarrow> string" where
  "numberToString n =
     (if n < 10 then [digitChar n] else numberToString (n div 10) @ [digitChar (n mod 10)])"

text \<open>
  Modelled from the spec: \<^verbatim>\<open>Common.addLeadnigZeros\<close> (in \<^verbatim>\<open>common.ts\<close>, not among
  the sources) pads the decimal counter with zeros on the left to a fixed width.
\<close>

definition addLeadnigZeros :: "nat \<Rightarrow> nat \<Rightarrow> string" where
  "addLeadnigZeros num size0 =
     replicate (size0 - length (numberToString num)) (CHR ''0'') @ numberToString num"

text \<open>
  The value that \<^verbatim>\<open>idCounter++\<close> stores: the sum \<open>v + 1\<close> as a JavaScript number
  (a double, rounded to the nearest one, ties to the even significand). Below
  \<open>2^53\<close> the sum is exact. From \<open>2^53\<close> on only even integers are numbers: up to
  \<open>2^54\<close> the sum lies halfway between \<open>v\<close> and \<open>v + 2\<close>, beyond it is nearest to
  \<open>v\<close>. So \<open>2^53 + 1\<close> gives \<open>2^53\<close> again: a counter that started at 1 stays
  there.
\<close>

definition incrementNumber :: "nat \<Rightarrow> nat" where
  "incrementNumber v =
     (if v < 2 ^ 53 then v + 1
      else if v < 2 ^ 54 \<and> odd (v div 2) then v + 2
      else v)"

text \<open>The getter \<^verbatim>\<open>nextId\<close>: the identifier and the cache with the counter advanced.\<close>

definition nextId :: "CachedCSVContent \<Rightarrow> string \<times> CachedCSVContent" where
  "nextId c =
     (''ID'' @ addLeadnigZeros (idCounter c) 16, c\<lparr>idCounter := incrementNumber (idCounter c)\<rparr>)"

text \<open>\<open>n\<close> successive reads of \<^verbatim>\<open>nextId\<close>.\<close>

fun nextIds :: "nat \<Rightarrow> CachedCSVContent \<Rightarrow> string list \<times> CachedCSVContent" where
  "nextIds 0 c = ([], c)"
| "nextIds (Suc n) c =
     (let r = nextId c; rs = nextIds n (snd r) in (fst r # fst rs, snd rs))"

text \<open>
  \<^verbatim>\<open>MigrationJob.saveCachedCsvDataFiles\<close>: the calls of
  \<^verbatim>\<open>Common.writeCsvFileAsync(filePath, rows, true)\<close> it makes, in order, and the
  cache it leaves (it assigns to no field of the cache). A path taken from
  \<^verbatim>\<open>keys()\<close> is always found by \<^verbatim>\<open>get\<close>; the \<open>None\<close> branch is never taken.
\<close>

type_synonym csv_write = "string \<times> csv_row list"

definition writeCachedFile :: "CachedCSVContent \<Rightarrow> string \<Rightarrow> csv_write list" where
  "writeCachedFile c filePath =
     (if filePath \<in> updatedFilenames c
      then (case map_of (csvDataCacheMap c) filePath of
              Some csvData \<Rightarrow> [(filePath, map snd csvData)]
            | None \<Rightarrow> [])
      else [])"

definition saveCachedCsvDataFiles :: "CachedCSVContent \<Rightarrow> csv_write list \<times> CachedCSVContent" where
  "saveCachedCsvDataFiles c =
     (let filePaths = map fst (csvDataCacheMap c)
      in (concat (map (writeCachedFile c) filePaths), c))"

subsection \<open>Chunked CRUD jobs\<close>

text \<open>
  The fields of \<^verbatim>\<open>ApiEngineBase\<close> that \<^verbatim>\<open>processCRUDApiJobAsync\<close> reads.
  \<^verbatim>\<open>processCRUDApiBatchAsync\<close> is overridden by each engine and the simulation
  batch draws random identifiers: both are parameters, \<open>None\<close> being \<^verbatim>\<open>null\<close>.
\<close>

record 'chunk ApiEngineBase =
  simulationMode :: bool
  createTargetCSVFiles :: bool
  targetCSVFullFilename :: string
  apiJobCreateResult_chunks :: "'chunk list"

definition writeToTargetCSVFileAsync :: "'chunk ApiEngineBase \<Rightarrow> csv_row list \<Rightarrow> csv_write list" where
  "writeToTargetCSVFileAsync e records =
     (if createTargetCSVFiles e then [(targetCSVFullFilename e, records)] else [])"

text \<open>
  The \<^verbatim>\<open>for\<close> loop over the chunks with \<^verbatim>\<open>allResultRecords\<close> as accumulator: the
  value returned and the writes made.
\<close>

fun chunkLoop ::
  "'chunk ApiEngineBase \<Rightarrow> ('chunk \<Rightarrow> csv_row list option) \<Rightarrow> ('chunk \<Rightarrow> csv_row list option)
     \<Rightarrow> 'chunk list \<Rightarrow> csv_row list \<Rightarrow> csv_row list option \<times> csv_write list" where
  "chunkLoop e processCRUDApiBatchAsync processCRUDSimulationBatchAsync [] allResultRecords =
     (Some allResultRecords, writeToTargetCSVFileAsync e allResultRecords)"
| "chunkLoop e processCRUDApiBatchAsync processCRUDSimulationBatchAsync (csvChunk # rest) allResultRecords =
     (case (if \<not> simulationMode e then processCRUDApiBatchAsync csvChunk
            else processCRUDSimulationBatchAsync csvChunk) of
        None \<Rightarrow> (None, writeToTargetCSVFileAsync e [])
      | Some resultRecords \<Rightarrow>
          chunkLoop e processCRUDApiBatchAsync processCRUDSimulationBatchAsync rest
            (allResultRecords @ resultRecords))"

definition processCRUDApiJobAsync ::
  "'chunk ApiEngineBase \<Rightarrow> ('chunk \<Rightarrow> csv_row list option) \<Rightarrow> ('chunk \<Rightarrow> csv_row list option)
     \<Rightarrow> csv_row list option \<times> csv_write list" where
  "processCRUDApiJobAsync e processCRUDApiBatchAsync processCRUDSimulationBatchAsync =
     chunkLoop e processCRUDApiBatchAsync processCRUDSimulationBatchAsync
       (apiJobCreateResult_chunks e) []"

subsection \<open>Notions used to state the properties\<close>

text \<open>The batch method \<^verbatim>\<open>processCRUDApiJobAsync\<close> calls for a chunk.\<close>

definition processBatch ::
  "'chunk ApiEngineBase \<Rightarrow> ('chunk \<Rightarrow> csv_row list option) \<Rightarrow> ('chunk \<Rightarrow> csv_row list option)
     \<Rightarrow> 'chunk \<Rightarrow> csv_row list option" where
  "processBatch e processCRUDApiBatchAsync processCRUDSimulationBatchAsync =
     (if \<not> simulationMode e then processCRUDApiBatchAsync else processCRUDSimulationBatchAsync)"

text \<open>
  The reports of missing parent lookups in processing order: for each task of a
  pass, in task order, the data sets it hands to the callback; the forward pass
  first, then the backward pass if it runs.
\<close>

definition missingLookupReports ::
  "(updateMode \<Rightarrow> Task \<Rightarrow> ProcessedData list) \<Rightarrow> updateMode \<Rightarrow> Task list
     \<Rightarrow> (Task \<times> ProcessedData) list" where
  "missingLookupReports processed updateMode0 ts =
     concat (map (\<lambda>task. map (Pair task) (reported (processed updateMode0 task))) ts)"

definition allMissingLookupReports ::
  "(updateMode \<Rightarrow> Task \<Rightarrow> ProcessedData list) \<Rightarrow> bool \<Rightarrow> Task list
     \<Rightarrow> (Task \<times> ProcessedData) list" where
  "allMissingLookupReports processed targetIsOrg ts =
     missingLookupReports processed UpdateForwards ts
     @ (if targetIsOrg then missingLookupReports processed UpdateBackwards ts else [])"

text \<open>All rows of a list of reports, duplicates kept.\<close>

definition reportedRows :: "(Task \<times> ProcessedData) list \<Rightarrow> IMissingParentLookupRecordCsvRow list" where
  "reportedRows reports = concat (map (\<lambda>r. missingParentLookups (snd r)) reports)"

text \<open>The prompt, respectively the warning, that a report gives rise to.\<close>

definition promptOf :: "Task \<times> ProcessedData \<Rightarrow> updateEvent" where
  "promptOf r = AbortPrompt (sObjectName (fst r)) (length (missingParentLookups (snd r)))"

definition warningOf :: "Task \<times> ProcessedData \<Rightarrow> updateEvent" where
  "warningOf r = Warn (sObjectName (fst r)) (length (missingParentLookups (snd r)))"

fun isAbortPrompt :: "updateEvent \<Rightarrow> bool" where
  "isAbortPrompt (AbortPrompt n k) = True"
| "isAbortPrompt (Warn n k) = False"
| "isAbortPrompt (SaveCSVFile f rows) = False"

fun isSaveCSVFile :: "updateEvent \<Rightarrow> bool" where
  "isSaveCSVFile (AbortPrompt n k) = False"
| "isSaveCSVFile (Warn n k) = False"
| "isSaveCSVFile (SaveCSVFile f rows) = True"

text \<open>The state a run ends in, whether it completed or was aborted.\<close>

definition finalState :: "jobError \<times> UpdateState + UpdateState \<Rightarrow> UpdateState" where
  "finalState r = (case r of Inl e \<Rightarrow> snd e | Inr st \<Rightarrow> st)"

text \<open>The callback applied to a report.\<close>

definition reportCallback ::
  "(string \<Rightarrow> nat \<Rightarrow> bool) \<Rightarrow> Task \<times> ProcessedData \<Rightarrow> UpdateState
     \<Rightarrow> jobError \<times> UpdateState + UpdateState" where
  "reportCallback askContinue r = warnUserCallback askContinue (fst r) (snd r)"

text \<open>The names of the entities of a task list, in order.\<close>

definition taskNames :: "Task list \<Rightarrow> string list" where
  "taskNames ts = map sObjectName ts"

text \<open>
  The three zones of the task chain: the \<open>RecordType\<close> entity, the readonly
  entities, all other entities. The zones are in order when no task of a later
  zone stands before a task of an earlier one: the special entity, if present, is
  first, and every readonly entity precedes every entity that is neither.
\<close>

definition zoneOf :: "Task \<Rightarrow> nat" where
  "zoneOf task =
     (if sObjectName task = RECORD_TYPE_SOBJECT_NAME then 0
      else if isReadonlyObject (scriptObject task) then 1 else 2)"

definition zonesInOrder :: "Task list \<Rightarrow> bool" where
  "zonesInOrder ts = sorted (map zoneOf ts)"

text \<open>
  The zones as the placement loop counts them: the first
  \<^verbatim>\<open>lowerIndexForReadonlyObjects\<close> tasks are \<open>RecordType\<close> tasks, the tasks from
  there up to \<^verbatim>\<open>lowerIndexForAnyObjects\<close> are readonly, the rest is neither.
\<close>

definition zonesPlaced :: "PlaceState \<Rightarrow> bool" where
  "zonesPlaced st =
     (lowerIndexForReadonlyObjects st \<le> lowerIndexForAnyObjects st
      \<and> lowerIndexForAnyObjects st \<le> length (tasks st)
      \<and> (\<forall>i < length (tasks st).
            zoneOf (tasks st ! i) =
              (if i < lowerIndexForReadonlyObjects st then 0
               else if i < lowerIndexForAnyObjects st then 1 else 2)))"

text \<open>The number that a string of decimal digits denotes.\<close>

definition decimalValue :: "string \<Rightarrow> nat" where
  "decimalValue s = foldl (\<lambda>v ch. 10 * v + (of_char ch - 48)) 0 s"

text \<open>
  The outside world after the per-task retrieval has been invoked for a list of
  calls, one after the other.
\<close>

definition performCalls ::
  "(Task \<Rightarrow> retrieveMode \<Rightarrow> bool \<Rightarrow> 'w \<Rightarrow> bool \<times> 'w) \<Rightarrow> retrieveCall list \<Rightarrow> 'w \<Rightarrow> 'w" where
  "performCalls retrieve calls w =
     foldl (\<lambda>w' call. snd (retrieve (fst call) (fst (snd call)) (snd (snd call)) w')) w calls"

subsection \<open>Example inputs\<close>

definition descriptor :: "string \<Rightarrow> string list \<Rightarrow> string list \<Rightarrow> bool \<Rightarrow> ScriptObject" where
  "descriptor n lookups masterDetails readonly =
     \<lparr>name = n, parentLookupObjects = lookups, parentMasterDetailObjects = masterDetails,
      allRecords = False, isSpecialObject = False, isObjectWithoutRelationships = False,
      isReadonlyObject = readonly, hasComplexExternalId = False, hasAutonumberExternalId = False,
      isLimitedQuery = False, processAllSource = False, processAllTarget = False\<rparr>"

text \<open>A job with the single entity \<open>Account\<close>, which has no parents.\<close>

definition accountOnly :: "ScriptObject list" where
  "accountOnly = [descriptor ''Account'' [] [] False]"

text \<open>A CRUD job of three chunks; the batch method fails on the chunk \<open>bad\<close>.\<close>

definition exampleEngine :: "nat ApiEngineBase" where
  "exampleEngine =
     \<lparr>simulationMode = False, createTargetCSVFiles = True,
      targetCSVFullFilename = ''Account_insert_target.csv'',
      apiJobCreateResult_chunks = [1, 2, 3]\<rparr>"

definition exampleBatch :: "nat \<Rightarrow> nat \<Rightarrow> csv_row list option" where
  "exampleBatch bad csvChunk =
     (if csvChunk = bad then None else Some [[(''Name'', replicate csvChunk (CHR ''x''))]])"

text \<open>
  The update example of the specification: in the forward pass entity \<open>X\<close> reports
  two missing parent lookups and entity \<open>Y\<close> three more.
\<close>

definition taskX :: Task where
  "taskX = \<lparr>taskId = 0, scriptObject = descriptor ''X'' [''P''] [] False\<rparr>"

definition taskY :: Task where
  "taskY = \<lparr>taskId = 1, scriptObject = descriptor ''Y'' [''P''] [] False\<rparr>"

definition missingRow :: "string \<Rightarrow> string \<Rightarrow> IMissingParentLookupRecordCsvRow" where
  "missingRow child v =
     \<lparr>dateUpdate = '''', childLookupObject = child, childLookupField = ''Parent__c'',
      childExternalIdField = ''Parent__r.Name'', parentLookupObject = ''P'',
      parentExternalIdField = ''Name'', missingParentExternalIdValue = v\<rparr>"

definition exampleProcessed :: "updateMode \<Rightarrow> Task \<Rightarrow> ProcessedData list" where
  "exampleProcessed updateMode0 task =
     [\<lparr>recordsToUpdate = [], recordsToInsert = [],
       missingParentLookups =
         (if updateMode0 = UpdateForwards \<and> sObjectName task = ''X''
          then [missingRow ''X'' ''p1'', missingRow ''X'' ''p2'']
          else if updateMode0 = UpdateForwards \<and> sObjectName task = ''Y''
          then [missingRow ''Y'' ''p1'', missingRow ''Y'' ''p2'', missingRow ''Y'' ''p3'']
          else [])\<rparr>]"

text \<open>
  A cache of two files after a repair that gave the account row an identifier:
  only \<open>Account.csv\<close> is marked dirty.
\<close>

definition exampleCache :: CachedCSVContent where
  "exampleCache =
     \<lparr>csvDataCacheMap =
        [(''Account.csv'',
            [(''ID0000000000000001'', [(''Id'', ''ID0000000000000001''), (''Name'', ''Acme'')])]),
         (''Contact.csv'', [(''003A'', [(''Id'', ''003A''), (''LastName'', ''Roe'')])])],
      updatedFilenames = {''Account.csv''},
      idCounter = 2\<rparr>"

text \<open>
  The scheduling example of the specification: \<open>A\<close> has no parents, \<open>B\<close> has a
  parent lookup to \<open>A\<close>, \<open>C\<close> has the master-detail parent \<open>B\<close>; the input order
  is \<open>[C, A, B]\<close>. In the second variant the master-detail parent of \<open>C\<close> is
  listed among its parent lookups as well.
\<close>

definition exampleCAB :: "ScriptObject list" where
  "exampleCAB =
     [descriptor ''C'' [] [''B''] False, descriptor ''A'' [] [] False,
      descriptor ''B'' [''A''] [] False]"

definition exampleCAB_lookup :: "ScriptObject list" where
  "exampleCAB_lookup =
     [descriptor ''C'' [''B''] [''B''] False, descriptor ''A'' [] [] False,
      descriptor ''B'' [''A''] [] False]"

text \<open>A readonly detail entity and its master, which is not readonly.\<close>

definition exampleReadonlyDetail :: "ScriptObject list" where
  "exampleReadonlyDetail =
     [descriptor ''Detail'' [''Master''] [''Master''] True, descriptor ''Master'' [] [] False]"

text \<open>
  Three readonly detail entities, two of the master \<open>P\<close> and one of the master
  \<open>Q\<close>; the masters are not readonly.
\<close>

definition exampleReadonlyDetails :: "ScriptObject list" where
  "exampleReadonlyDetails =
     [descriptor ''DetailP1'' [''P''] [''P''] True, descriptor ''DetailP2'' [''P''] [''P''] True,
      descriptor ''DetailQ'' [''Q''] [''Q''] True, descriptor ''P'' [] [] False,
      descriptor ''Q'' [] [] False]"

text \<open>
  Two readonly detail entities of one master; the first is fetched with all its
  records, the master with a limited query.
\<close>

definition exampleQueryOrder :: "ScriptObject list" where
  "exampleQueryOrder =
     [(descriptor ''DetailP1'' [''P''] [''P''] True)\<lparr>allRecords := True\<rparr>,
      descriptor ''DetailP2'' [''P''] [''P''] True,
      (descriptor ''P'' [] [] False)\<lparr>isLimitedQuery := True\<rparr>]"

text \<open>
  A per-task retrieval that finds no records and writes down, in the outside
  world, each invocation it receives.
\<close>

definition recordingRetrieve ::
  "Task \<Rightarrow> retrieveMode \<Rightarrow> bool \<Rightarrow> (string \<times> retrieveMode \<times> bool) list
     \<Rightarrow> bool \<times> (string \<times> retrieveMode \<times> bool) list" where
  "recordingRetrieve task queryMode reversed w =
     (False, w @ [(sObjectName task, queryMode, reversed)])"

text \<open>
  An ordinary job without master-detail relationships: \<open>Account\<close> has no
  parents, \<open>Contact\<close> has a parent lookup to \<open>Account\<close> and a limited query.
\<close>

definition exampleLimitedContact :: "ScriptObject list" where
  "exampleLimitedContact =
     [descriptor ''Account'' [] [] False,
      (descriptor ''Contact'' [''Account''] [] False)\<lparr>isLimitedQuery := True\<rparr>]"

section \<open>Properties\<close>

subsection \<open>A fix-up pass that swaps nothing changes nothing\<close>

lemma swapStep_unswapped:
  "snd (swapStep l r st) = False \<Longrightarrow> swapStep l r st = st"
  by (simp add: swapStep_def Let_def split: if_splits)

lemma swapStep_swapped: "snd st \<Longrightarrow> snd (swapStep l r st)"
  by (simp add: swapStep_def Let_def)

lemma rightLoop_swapped: "snd st \<Longrightarrow> snd (rightLoop l rs st)"
  by (induction rs arbitrary: st) (simp_all add: swapStep_swapped)

lemma rightLoop_unswapped:
  "snd (rightLoop l rs st) = False \<Longrightarrow> rightLoop l rs st = st"
proof (induction rs arbitrary: st)
  case Nil
  then show ?case by simp
next
  case (Cons r rs)
  have "snd (swapStep l r st) = False"
    using Cons.prems rightLoop_swapped [of "swapStep l r st" l rs] by auto
  then have "swapStep l r st = st"
    by (rule swapStep_unswapped)
  then show ?case
    using Cons.IH [of st] Cons.prems by simp
qed

lemma leftLoop_swapped: "snd st \<Longrightarrow> snd (leftLoop ls st)"
  by (induction ls arbitrary: st) (simp_all add: rightLoop_swapped)

lemma leftLoop_unswapped:
  "snd (leftLoop ls st) = False \<Longrightarrow> leftLoop ls st = st"
proof (induction ls arbitrary: st)
  case Nil
  then show ?case by simp
next
  case (Cons l ls)
  have "snd (rightLoop l ls st) = False"
    using Cons.prems leftLoop_swapped [of "rightLoop l ls st" ls] by auto
  then have "rightLoop l ls st = st"
    by (rule rightLoop_unswapped)
  then show ?case
    using Cons.IH [of st] Cons.prems by simp
qed

lemma putMasterDetailsBefore_unswapped:
  "snd (putMasterDetailsBefore ts) = False \<Longrightarrow> putMasterDetailsBefore ts = (ts, False)"
  unfolding putMasterDetailsBefore_def by (rule leftLoop_unswapped)

lemma fixupLoop_stuck_aux:
  assumes fp: "putMasterDetailsBefore ts = (ts, False)"
  shows "fixupLoop i s ts' = Some y \<Longrightarrow> \<not> (s = False \<and> ts' = ts)"
proof (rule fixupLoop.raw_induct [where P = "\<lambda>i s ts' y. \<not> (s = False \<and> ts' = ts)"])
  fix f :: "nat \<Rightarrow> bool \<Rightarrow> Task list \<Rightarrow> Task list option"
    and j :: nat and b :: bool and us r :: "Task list"
  assume IH: "\<And>j b us r. f j b us = Some r \<Longrightarrow> \<not> (b = False \<and> us = ts)"
    and step: "(if j < 10 \<or> \<not> b
                then f (j + 1) (snd (putMasterDetailsBefore us)) (fst (putMasterDetailsBefore us))
                else Some us) = Some r"
  show "\<not> (b = False \<and> us = ts)"
  proof
    assume a: "b = False \<and> us = ts"
    then have "f (j + 1) False ts = Some r"
      using step fp by simp
    then show False using IH by blast
  qed
qed

lemma fixupLoop_stuck:
  "putMasterDetailsBefore ts = (ts, False) \<Longrightarrow> fixupLoop i False ts = None"
  using fixupLoop_stuck_aux [of ts i False ts] by (cases "fixupLoop i False ts") auto

lemma fixupRounds_Suc:
  "fixupRounds (Suc n) st = putMasterDetailsBefore (fst (fixupRounds n st))"
  by (induction n arbitrary: st) simp_all

lemma fixupLoop_rounds:
  "i + n \<le> 10 \<Longrightarrow>
   fixupLoop i s ts = fixupLoop (i + n) (snd (fixupRounds n (ts, s))) (fst (fixupRounds n (ts, s)))"
proof (induction n arbitrary: i s ts)
  case 0
  then show ?case by simp
next
  case (Suc n)
  have "fixupLoop i s ts =
        fixupLoop (Suc i) (snd (putMasterDetailsBefore ts)) (fst (putMasterDetailsBefore ts))"
    using Suc.prems by (subst fixupLoop.simps) simp
  also have "\<dots> = fixupLoop (Suc i + n) (snd (fixupRounds n (putMasterDetailsBefore ts)))
                     (fst (fixupRounds n (putMasterDetailsBefore ts)))"
    using Suc.prems Suc.IH [of "Suc i"] by simp
  finally show ?case by simp
qed

lemma fixupLoop_result:
  "fixupLoop 0 True ts =
     (if snd (fixupRounds 10 (ts, True)) then Some (fst (fixupRounds 10 (ts, True))) else None)"
proof -
  let ?st = "fixupRounds 10 (ts, True)"
  have run: "fixupLoop 0 True ts = fixupLoop 10 (snd ?st) (fst ?st)"
    using fixupLoop_rounds [of 0 10 True ts] by simp
  show ?thesis
  proof (cases "snd ?st")
    case True
    then show ?thesis
      using run by (subst (asm) (2) fixupLoop.simps) simp
  next
    case False
    have "?st = putMasterDetailsBefore (fst (fixupRounds 9 (ts, True)))"
      using fixupRounds_Suc [of 9 "(ts, True)"] by simp
    with False have "putMasterDetailsBefore (fst ?st) = (fst ?st, False)"
      using putMasterDetailsBefore_unswapped [of "fst (fixupRounds 9 (ts, True))"] by simp
    then show ?thesis
      using run False fixupLoop_stuck by simp
  qed
qed

lemma MigrationJob_setup_result:
  "MigrationJob_setup objects =
     (let st = fixupRounds 10 (tasks (placeTasks objects), True)
      in if snd st then Some \<lparr>job_tasks = fst st, job_queryTasks = makeQueryTasks (fst st)\<rparr>
         else None)"
  by (simp add: MigrationJob_setup_def fixupLoop_result Let_def)

lemma fixupRounds_fixed:
  "putMasterDetailsBefore ts = (ts, False) \<Longrightarrow> fixupRounds (Suc n) (ts, s) = (ts, False)"
  by (induction n arbitrary: s) simp_all

lemma fixupRounds_add: "fixupRounds (m + n) st = fixupRounds n (fixupRounds m st)"
  by (induction m arbitrary: st) simp_all

subsection \<open>The fix-up loop\<close>

text \<open>
  Claim C1 says that the master-detail fix-up phase of \<^verbatim>\<open>MigrationJob.setup\<close> is
  bounded: the swap pass is repeated only while a swap occurred, at most 10 times,
  and control always returns. The loop condition is
  \<^verbatim>\<open>iteration < 10 || !swapped\<close>: ten rounds run whatever happens, and from then on
  the loop goes on exactly when the last round swapped nothing, which no later
  round can change. For the job with the single entity \<open>Account\<close> the first round
  already swaps nothing, and the call never returns.
\<close>

theorem C1_setup_does_not_return: "MigrationJob_setup accountOnly = None"
proof -
  let ?ts = "[\<lparr>taskId = 0, scriptObject = descriptor ''Account'' [] [] False\<rparr>]"
  have place: "tasks (placeTasks accountOnly) = ?ts"
    by (simp add: accountOnly_def placeTasks_def addObject_def setProcessAll_def
        descriptor_def RECORD_TYPE_SOBJECT_NAME_def)
  have pass: "putMasterDetailsBefore ?ts = (?ts, False)"
    by (simp add: putMasterDetailsBefore_def)
  have "fixupRounds 10 (?ts, True) = (?ts, False)"
    using fixupRounds_fixed [OF pass, of 9 True] by simp
  then show ?thesis
    by (simp add: MigrationJob_setup_result place)
qed

subsection \<open>Retrieval passes\<close>

lemma retrievePass_calls:
  "fst (snd (retrievePass retrieve m b ts st)) = fst (snd st) @ map (\<lambda>t. (t, m, b)) ts"
  by (induction ts arbitrary: st) (simp_all add: Let_def)

lemma performCalls_append:
  "performCalls retrieve (calls @ calls') w = performCalls retrieve calls' (performCalls retrieve calls w)"
  by (simp add: performCalls_def)

lemma retrievePass_world:
  "fst (retrievePass retrieve m b ts st) = performCalls retrieve (map (\<lambda>t. (t, m, b)) ts) (fst st)"
  by (induction ts arbitrary: st) (simp_all add: Let_def performCalls_def)

text \<open>
  Claim C8: \<^verbatim>\<open>MigrationJob.retrieveRecords\<close> makes exactly six passes in a fixed
  order: one source-forward pass, two source-backward passes, two source-forward
  passes in reverse mode and one target pass; each pass calls the per-task
  retrieval on every task of \<^verbatim>\<open>queryTasks\<close> in query order, and a pass is complete
  before the next one begins. Whatever the retrievals do and return, the outside
  world at the end is the one that results from invoking the per-task retrieval
  for exactly these calls, one after the other in this order, and these are the
  calls made:
\<close>

theorem C8_retrieveRecords_passes:
  "(let calls =
          map (\<lambda>task. (task, Forwards, False)) queryTasks
          @ map (\<lambda>task. (task, Backwards, False)) queryTasks
          @ map (\<lambda>task. (task, Backwards, False)) queryTasks
          @ map (\<lambda>task. (task, Forwards, True)) queryTasks
          @ map (\<lambda>task. (task, Forwards, True)) queryTasks
          @ map (\<lambda>task. (task, Target, False)) queryTasks
    in retrieveRecords retrieve queryTasks w = (performCalls retrieve calls w, calls))"
  by (simp add: retrieveRecords_def Let_def retrievePass_calls retrievePass_world
      resetRetrieved_def performCalls_append)

text \<open>
  With a retrieval that writes down each invocation it receives, for the two
  tasks \<open>X\<close> and \<open>Y\<close>: the twelve invocations, pass by pass.
\<close>

theorem C8_retrieveRecords_passes_witness:
  "fst (retrieveRecords recordingRetrieve [taskX, taskY] []) =
     [(''X'', Forwards, False), (''Y'', Forwards, False),
      (''X'', Backwards, False), (''Y'', Backwards, False),
      (''X'', Backwards, False), (''Y'', Backwards, False),
      (''X'', Forwards, True), (''Y'', Forwards, True),
      (''X'', Forwards, True), (''Y'', Forwards, True),
      (''X'', Target, False), (''Y'', Target, False)]"
  using C8_retrieveRecords_passes [of "[taskX, taskY]" recordingRetrieve "[]"]
  by (simp add: Let_def performCalls_def recordingRetrieve_def taskX_def taskY_def
      sObjectName_def descriptor_def)

subsection \<open>Chunked CRUD jobs\<close>

lemma chunkLoop_null:
  "list_ex (\<lambda>c. processBatch e api sim c = None) cs \<Longrightarrow>
   chunkLoop e api sim cs acc = (None, writeToTargetCSVFileAsync e [])"
  by (induction cs arbitrary: acc) (auto simp: processBatch_def split: option.splits)

lemma chunkLoop_all:
  "map (processBatch e api sim) cs = map Some results \<Longrightarrow>
   chunkLoop e api sim cs acc =
     (Some (acc @ concat results), writeToTargetCSVFileAsync e (acc @ concat results))"
proof (induction cs arbitrary: acc results)
  case Nil
  then show ?case by simp
next
  case (Cons c cs)
  then obtain r rs where rs: "results = r # rs" by (cases results) auto
  with Cons.prems have "processBatch e api sim c = Some r"
    and "map (processBatch e api sim) cs = map Some rs" by auto
  then show ?case
    using Cons.IH [of rs "acc @ r"] rs by (simp add: processBatch_def split: if_splits)
qed

text \<open>
  Claim C10: if the processing of any chunk of a chunked CRUD job yields
  \<^verbatim>\<open>null\<close>, \<^verbatim>\<open>processCRUDApiJobAsync\<close> at once writes an empty record list to the
  target CSV file and returns \<^verbatim>\<open>null\<close>, so that the records of the chunks that
  succeeded before are discarded; only when every chunk succeeds does it write and
  return the concatenation of all chunk results. (The write is the call of
  \<^verbatim>\<open>writeToTargetCSVFileAsync\<close>, which creates the file when the engine has
  \<^verbatim>\<open>createTargetCSVFiles\<close> set.)
\<close>

theorem C10_null_chunk_discards_results:
  "(list_ex (\<lambda>c. processBatch e api sim c = None) (apiJobCreateResult_chunks e) \<longrightarrow>
      processCRUDApiJobAsync e api sim = (None, writeToTargetCSVFileAsync e []))
   \<and> (map (processBatch e api sim) (apiJobCreateResult_chunks e) = map Some results \<longrightarrow>
      processCRUDApiJobAsync e api sim =
        (Some (concat results), writeToTargetCSVFileAsync e (concat results)))"
  using chunkLoop_null [of e api sim "apiJobCreateResult_chunks e" "[]"]
    chunkLoop_all [of e api sim "apiJobCreateResult_chunks e" results "[]"]
  by (simp add: processCRUDApiJobAsync_def)

text \<open>
  Three chunks: when the second one fails the empty list is written and the
  result is \<^verbatim>\<open>null\<close>; when none fails the three results are written and returned.
\<close>

theorem C10_null_chunk_discards_results_witness:
  "list_ex (\<lambda>c. processBatch exampleEngine (exampleBatch 2) (\<lambda>c. None) c = None)
      (apiJobCreateResult_chunks exampleEngine)
   \<and> processCRUDApiJobAsync exampleEngine (exampleBatch 2) (\<lambda>c. None) =
       (None, [(''Account_insert_target.csv'', [])])
   \<and> map (processBatch exampleEngine (exampleBatch 0) (\<lambda>c. None))
        (apiJobCreateResult_chunks exampleEngine) =
       map Some [[[(''Name'', ''x'')]], [[(''Name'', ''xx'')]], [[(''Name'', ''xxx'')]]]
   \<and> processCRUDApiJobAsync exampleEngine (exampleBatch 0) (\<lambda>c. None) =
       (Some [[(''Name'', ''x'')], [(''Name'', ''xx'')], [(''Name'', ''xxx'')]],
        [(''Account_insert_target.csv'',
          [[(''Name'', ''x'')], [(''Name'', ''xx'')], [(''Name'', ''xxx'')]])])"
  using C10_null_chunk_discards_results [of exampleEngine "exampleBatch 2" "\<lambda>c. None"]
    C10_null_chunk_discards_results [of exampleEngine "exampleBatch 0" "\<lambda>c. None"
      "[[[(''Name'', ''x'')]], [[(''Name'', ''xx'')]], [[(''Name'', ''xxx'')]]]"]
  by (simp add: exampleEngine_def exampleBatch_def processBatch_def
      writeToTargetCSVFileAsync_def numeral_2_eq_2 numeral_3_eq_3)

subsection \<open>Update passes and missing parent lookups\<close>

lemma forEachAsync_append:
  "forEachAsync f (xs @ ys) st =
     (case forEachAsync f xs st of Inl e \<Rightarrow> Inl e | Inr st' \<Rightarrow> forEachAsync f ys st')"
  by (induction xs arbitrary: st) (simp_all split: sum.splits)

lemma forEachAsync_Pair:
  "forEachAsync (\<lambda>r. f (fst r) (snd r)) (map (Pair t) ds) st = forEachAsync (f t) ds st"
  by (induction ds arbitrary: st) (simp_all split: sum.splits)

lemma tasks_loop_flat:
  "forEachAsync (task_updateRecords processed askContinue m) ts st =
   forEachAsync (reportCallback askContinue) (missingLookupReports processed m ts) st"
proof (induction ts arbitrary: st)
  case Nil
  then show ?case by (simp add: missingLookupReports_def)
next
  case (Cons t ts)
  have "forEachAsync (reportCallback askContinue) (map (Pair t) (reported (processed m t))) st
        = task_updateRecords processed askContinue m t st"
    unfolding reportCallback_def task_updateRecords_def by (rule forEachAsync_Pair)
  then show ?case
    using Cons.IH by (simp add: missingLookupReports_def forEachAsync_append split: sum.splits)
qed

lemma updateRecords_flat:
  "updateRecords processed askContinue targetIsOrg ts =
     (case forEachAsync (reportCallback askContinue) (allMissingLookupReports processed targetIsOrg ts)
             \<lparr>allMissingParentLookups = [], noAbortPrompt = False, events = []\<rparr> of
        Inl e \<Rightarrow> Inl e
      | Inr st \<Rightarrow> Inr (saveMissingParentLookups st))"
  by (simp add: updateRecords_def allMissingLookupReports_def tasks_loop_flat forEachAsync_append
      split: sum.splits)

lemma warned_loop:
  "noAbortPrompt st \<Longrightarrow>
   forEachAsync (reportCallback askContinue) reports st =
     Inr (st\<lparr>allMissingParentLookups := allMissingParentLookups st @ reportedRows reports,
             events := events st @ map warningOf reports\<rparr>)"
proof (induction reports arbitrary: st)
  case Nil
  then show ?case by (simp add: reportedRows_def)
next
  case (Cons r reports)
  then show ?case
    by (simp add: reportCallback_def warnUserCallback_def warn_def Let_def reportedRows_def
        warningOf_def)
qed

lemma first_report:
  "\<not> noAbortPrompt st \<Longrightarrow>
   forEachAsync (reportCallback askContinue) (r # reports) st =
     (if askContinue (sObjectName (fst r)) (length (missingParentLookups (snd r)))
      then Inr (st\<lparr>allMissingParentLookups := allMissingParentLookups st @ reportedRows (r # reports),
                   noAbortPrompt := True,
                   events := events st @ promptOf r # map warningOf reports\<rparr>)
      else Inl (CommandAbortedByUser,
             st\<lparr>allMissingParentLookups := allMissingParentLookups st @ missingParentLookups (snd r),
                events := events st @
                  [promptOf r,
                   SaveCSVFile MISSING_PARENT_LOOKUP_RECORDS_ERRORS_FILENAME
                     (allMissingParentLookups st @ missingParentLookups (snd r))]\<rparr>))"
  by (simp add: reportCallback_def warnUserCallback_def promptToAbort_def abortWithPrompt_def
      Let_def saveMissingParentLookups_def promptOf_def warned_loop reportedRows_def)

lemma updateRecords_result:
  "updateRecords processed askContinue targetIsOrg ts =
     (case allMissingLookupReports processed targetIsOrg ts of
        [] \<Rightarrow> Inr \<lparr>allMissingParentLookups = [], noAbortPrompt = False,
                  events = [SaveCSVFile MISSING_PARENT_LOOKUP_RECORDS_ERRORS_FILENAME []]\<rparr>
      | r # reports \<Rightarrow>
          if askContinue (sObjectName (fst r)) (length (missingParentLookups (snd r)))
          then Inr \<lparr>allMissingParentLookups = reportedRows (r # reports), noAbortPrompt = True,
                    events = promptOf r # map warningOf reports @
                      [SaveCSVFile MISSING_PARENT_LOOKUP_RECORDS_ERRORS_FILENAME
                         (reportedRows (r # reports))]\<rparr>
          else Inl (CommandAbortedByUser,
                 \<lparr>allMissingParentLookups = missingParentLookups (snd r), noAbortPrompt = False,
                  events = [promptOf r,
                    SaveCSVFile MISSING_PARENT_LOOKUP_RECORDS_ERRORS_FILENAME
                      (missingParentLookups (snd r))]\<rparr>))"
proof (cases "allMissingLookupReports processed targetIsOrg ts")
  case Nil
  then show ?thesis
    by (simp add: updateRecords_flat saveMissingParentLookups_def)
next
  case (Cons r reports)
  have "\<not> noAbortPrompt \<lparr>allMissingParentLookups = [], noAbortPrompt = False, events = []\<rparr>"
    by simp
  from first_report [OF this, of askContinue r reports] show ?thesis
    unfolding updateRecords_flat Cons by (simp add: saveMissingParentLookups_def)
qed

text \<open>
  Claim C4: over both update passes of \<^verbatim>\<open>MigrationJob.updateRecords\<close> (forward,
  then backward) the abort prompt for missing parent lookups is put at most once
  per run: only the first report of a non-empty missing-lookup list, in processing
  order, triggers the prompt, and every later report, from any task in either
  pass, only emits a warning. The prompts and warnings of a run, in order (after
  a negative answer the run is over):
\<close>

theorem C4_prompt_at_most_once:
  "filter (\<lambda>e. \<not> isSaveCSVFile e)
      (events (finalState (updateRecords processed askContinue targetIsOrg ts))) =
     (case allMissingLookupReports processed targetIsOrg ts of
        [] \<Rightarrow> []
      | r # reports \<Rightarrow>
          promptOf r #
          (if askContinue (sObjectName (fst r)) (length (missingParentLookups (snd r)))
           then map warningOf reports else []))
   \<and> length (filter isAbortPrompt
         (events (finalState (updateRecords processed askContinue targetIsOrg ts)))) \<le> 1"
  by (simp add: updateRecords_result finalState_def promptOf_def warningOf_def filter_map comp_def
      split: list.splits)

text \<open>
  The example of the specification: \<open>X\<close> reports two missing lookups and \<open>Y\<close>
  three; the prompt is put once, for \<open>X\<close>, and \<open>Y\<close> only gets a warning.
\<close>

theorem C4_prompt_at_most_once_witness:
  "filter (\<lambda>e. \<not> isSaveCSVFile e)
      (events (finalState (updateRecords exampleProcessed (\<lambda>n k. True) True [taskX, taskY]))) =
     [AbortPrompt ''X'' 2, Warn ''Y'' 3]"
  using C4_prompt_at_most_once [where processed = exampleProcessed
        and askContinue = "\<lambda>n k. True" and targetIsOrg = True and ts = "[taskX, taskY]"]
  by (simp add: allMissingLookupReports_def missingLookupReports_def reported_def
      exampleProcessed_def taskX_def taskY_def sObjectName_def descriptor_def promptOf_def
      warningOf_def)

text \<open>
  Claim C5: \<^verbatim>\<open>updateRecords\<close> appends the missing-parent-lookup rows of every
  report, from both passes, to one job-wide accumulator without removing
  duplicates, and the report file written at the end of \<^verbatim>\<open>updateRecords\<close>, or
  from within the abort prompt, holds exactly the accumulated list: no reported
  row is dropped, whatever the answer to the prompt. A completed run has received
  all reports and writes the file once, last, with all their rows; an aborted run
  has received the first report only and writes the file once with its rows.
\<close>

theorem C5_report_holds_all_rows:
  "(case updateRecords processed askContinue targetIsOrg ts of
      Inr st \<Rightarrow>
        allMissingParentLookups st = reportedRows (allMissingLookupReports processed targetIsOrg ts)
        \<and> filter isSaveCSVFile (events st) =
            [SaveCSVFile MISSING_PARENT_LOOKUP_RECORDS_ERRORS_FILENAME
               (reportedRows (allMissingLookupReports processed targetIsOrg ts))]
        \<and> last (events st) =
            SaveCSVFile MISSING_PARENT_LOOKUP_RECORDS_ERRORS_FILENAME
               (reportedRows (allMissingLookupReports processed targetIsOrg ts))
    | Inl e \<Rightarrow>
        allMissingParentLookups (snd e) =
          reportedRows (take 1 (allMissingLookupReports processed targetIsOrg ts))
        \<and> filter isSaveCSVFile (events (snd e)) =
            [SaveCSVFile MISSING_PARENT_LOOKUP_RECORDS_ERRORS_FILENAME
               (reportedRows (take 1 (allMissingLookupReports processed targetIsOrg ts)))]
        \<and> filter (\<lambda>e. \<not> isSaveCSVFile e) (events (snd e)) =
            map promptOf (take 1 (allMissingLookupReports processed targetIsOrg ts)))"
  by (simp add: updateRecords_result promptOf_def warningOf_def filter_map comp_def reportedRows_def
      split: list.splits)

text \<open>
  In the example the file holds all five rows when the user continues, and the two
  rows of \<open>X\<close> when the user aborts.
\<close>

theorem C5_report_holds_all_rows_witness:
  "filter isSaveCSVFile
      (events (finalState (updateRecords exampleProcessed (\<lambda>n k. True) True [taskX, taskY]))) =
     [SaveCSVFile MISSING_PARENT_LOOKUP_RECORDS_ERRORS_FILENAME
        [missingRow ''X'' ''p1'', missingRow ''X'' ''p2'',
         missingRow ''Y'' ''p1'', missingRow ''Y'' ''p2'', missingRow ''Y'' ''p3'']]
   \<and> filter isSaveCSVFile
      (events (finalState (updateRecords exampleProcessed (\<lambda>n k. False) True [taskX, taskY]))) =
     [SaveCSVFile MISSING_PARENT_LOOKUP_RECORDS_ERRORS_FILENAME
        [missingRow ''X'' ''p1'', missingRow ''X'' ''p2'']]"
  using C5_report_holds_all_rows [where processed = exampleProcessed
        and askContinue = "\<lambda>n k. True" and targetIsOrg = True and ts = "[taskX, taskY]"]
    C5_report_holds_all_rows [where processed = exampleProcessed
        and askContinue = "\<lambda>n k. False" and targetIsOrg = True and ts = "[taskX, taskY]"]
  by (simp add: allMissingLookupReports_def missingLookupReports_def reported_def
      exampleProcessed_def taskX_def taskY_def sObjectName_def descriptor_def reportedRows_def
      finalState_def updateRecords_result split: sum.splits)

subsection \<open>Flushing the CSV record cache\<close>

lemma writeCachedFile_entries:
  "distinct (map fst (csvDataCacheMap c)) \<Longrightarrow> set es \<subseteq> set (csvDataCacheMap c) \<Longrightarrow>
   concat (map (writeCachedFile c) (map fst es)) =
     map (\<lambda>e. (fst e, map snd (snd e))) (filter (\<lambda>e. fst e \<in> updatedFilenames c) es)"
proof (induction es)
  case Nil
  then show ?case by simp
next
  case (Cons e es)
  have "(fst e, snd e) \<in> set (csvDataCacheMap c)"
    using Cons.prems(2) by simp
  then have "map_of (csvDataCacheMap c) (fst e) = Some (snd e)"
    using Cons.prems(1) by (rule map_of_is_SomeI [rotated])
  then have "writeCachedFile c (fst e) =
             (if fst e \<in> updatedFilenames c then [(fst e, map snd (snd e))] else [])"
    by (simp add: writeCachedFile_def del: map_of_eq_Some_iff)
  then show ?case
    using Cons by simp
qed

lemma flush_after_clear: "fst (saveCachedCsvDataFiles clear) = []"
  by (simp add: saveCachedCsvDataFiles_def clear_def)

text \<open>
  Claim C3 says that \<^verbatim>\<open>MigrationJob.saveCachedCsvDataFiles\<close> writes back exactly
  the cached file paths that are marked dirty and no other path, and that a second
  flush, with no path marked dirty since the first, writes nothing. The first half
  holds. The second does not: the flush does not touch \<^verbatim>\<open>updatedFilenames\<close> (only
  \<^verbatim>\<open>clear()\<close> empties it), so a second flush writes the same files again. In the
  example cache \<open>Account.csv\<close> is written twice:
\<close>

theorem C3_second_flush_counterexample:
  "updatedFilenames (snd (saveCachedCsvDataFiles exampleCache)) = updatedFilenames exampleCache
   \<and> fst (saveCachedCsvDataFiles (snd (saveCachedCsvDataFiles exampleCache))) \<noteq> []"
  by (simp add: saveCachedCsvDataFiles_def writeCachedFile_def exampleCache_def)

text \<open>
  Claim C3 as amended: the flush writes exactly the cached file paths that are
  marked dirty, each once with all its rows, in cache order, and no other path;
  it leaves the cache and the dirty marks as they are, so that a second flush
  with no new dirty path writes the same files again. (The keys of a
  \<^verbatim>\<open>Map\<close> are distinct.)
\<close>

theorem C3_flush_writes_dirty_paths:
  assumes "distinct (map fst (csvDataCacheMap c))"
  shows "fst (saveCachedCsvDataFiles c) =
           map (\<lambda>e. (fst e, map snd (snd e)))
             (filter (\<lambda>e. fst e \<in> updatedFilenames c) (csvDataCacheMap c))
         \<and> set (map fst (fst (saveCachedCsvDataFiles c))) =
             set (map fst (csvDataCacheMap c)) \<inter> updatedFilenames c
         \<and> snd (saveCachedCsvDataFiles c) = c
         \<and> fst (saveCachedCsvDataFiles (snd (saveCachedCsvDataFiles c))) =
             fst (saveCachedCsvDataFiles c)"
proof -
  have w: "fst (saveCachedCsvDataFiles c) =
           map (\<lambda>e. (fst e, map snd (snd e)))
             (filter (\<lambda>e. fst e \<in> updatedFilenames c) (csvDataCacheMap c))"
    using writeCachedFile_entries [OF assms, of "csvDataCacheMap c"]
    by (simp add: saveCachedCsvDataFiles_def)
  have s: "snd (saveCachedCsvDataFiles c) = c"
    by (simp add: saveCachedCsvDataFiles_def)
  have "set (map fst (fst (saveCachedCsvDataFiles c))) =
        set (map fst (csvDataCacheMap c)) \<inter> updatedFilenames c"
    unfolding w by (auto simp: image_iff)
  with w s show ?thesis by simp
qed

text \<open>In the example cache both flushes write \<open>Account.csv\<close>, and only it.\<close>

theorem C3_flush_writes_dirty_paths_witness:
  "distinct (map fst (csvDataCacheMap exampleCache))
   \<and> fst (saveCachedCsvDataFiles exampleCache) =
       [(''Account.csv'', [[(''Id'', ''ID0000000000000001''), (''Name'', ''Acme'')]])]
   \<and> fst (saveCachedCsvDataFiles (snd (saveCachedCsvDataFiles exampleCache))) =
       [(''Account.csv'', [[(''Id'', ''ID0000000000000001''), (''Name'', ''Acme'')]])]"
proof -
  have d: "distinct (map fst (csvDataCacheMap exampleCache))"
    by (simp add: exampleCache_def)
  show ?thesis
    using d C3_flush_writes_dirty_paths [OF d] by (simp add: exampleCache_def)
qed

subsection \<open>The scheduler keeps every task exactly once\<close>

lemma indexOf_found:
  "x \<in> set xs \<Longrightarrow> 0 \<le> indexOf xs x \<and> nat (indexOf xs x) < length xs \<and> xs ! nat (indexOf xs x) = x"
proof (induction xs)
  case Nil
  then show ?case by simp
next
  case (Cons y ys)
  show ?case
  proof (cases "y = x")
    case True
    then show ?thesis by simp
  next
    case False
    with Cons.prems have "x \<in> set ys" by simp
    from Cons.IH [OF this] False show ?thesis
      by (simp add: Let_def nat_add_distrib)
  qed
qed

lemma indexOf_negative: "indexOf xs x < 0 \<longleftrightarrow> x \<notin> set xs"
proof (induction xs)
  case Nil
  then show ?case by simp
next
  case (Cons y ys)
  then show ?case
    using indexOf_found [of x ys] by (auto simp: Let_def)
qed

lemma mset_splice_insert: "mset (splice_insert xs i x) = add_mset x (mset xs)"
proof -
  have "mset (take s xs) + mset (drop s xs) = mset xs" for s
    by (metis append_take_drop_id mset_append)
  then show ?thesis
    by (simp add: splice_insert_def Let_def)
qed

lemma mset_splice_remove:
  assumes "x \<in> set xs"
  shows "add_mset x (mset (splice_remove xs (indexOf xs x))) = mset xs"
proof -
  let ?i = "nat (indexOf xs x)"
  have i: "0 \<le> indexOf xs x" "?i < length xs" "xs ! ?i = x"
    using indexOf_found [OF assms] by simp_all
  then have s: "splice_start (indexOf xs x) (length xs) = ?i"
    by (simp add: splice_start_def)
  have "xs = take ?i xs @ x # drop (Suc ?i) xs"
    using i id_take_nth_drop [of ?i xs] by simp
  then have "mset xs = mset (take ?i xs @ x # drop (Suc ?i) xs)"
    by simp
  then show ?thesis
    by (simp add: splice_remove_def s Let_def)
qed

lemma swapStep_mset:
  "r \<in> set (fst st) \<Longrightarrow> mset (fst (swapStep l r st)) = mset (fst st)"
  by (simp add: swapStep_def Let_def mset_splice_insert mset_splice_remove)

lemma rightLoop_mset:
  "set rs \<subseteq> set (fst st) \<Longrightarrow> mset (fst (rightLoop l rs st)) = mset (fst st)"
proof (induction rs arbitrary: st)
  case Nil
  then show ?case by simp
next
  case (Cons r rs)
  then have m: "mset (fst (swapStep l r st)) = mset (fst st)"
    by (simp add: swapStep_mset)
  then have "set (fst (swapStep l r st)) = set (fst st)"
    by (rule mset_eq_setD)
  with Cons m show ?case by simp
qed

lemma leftLoop_mset:
  "set ls \<subseteq> set (fst st) \<Longrightarrow> mset (fst (leftLoop ls st)) = mset (fst st)"
proof (induction ls arbitrary: st)
  case Nil
  then show ?case by simp
next
  case (Cons l ls)
  then have m: "mset (fst (rightLoop l ls st)) = mset (fst st)"
    by (simp add: rightLoop_mset)
  then have "set (fst (rightLoop l ls st)) = set (fst st)"
    by (rule mset_eq_setD)
  with Cons m show ?case by simp
qed

lemma putMasterDetailsBefore_mset: "mset (fst (putMasterDetailsBefore ts)) = mset ts"
  by (simp add: putMasterDetailsBefore_def leftLoop_mset)

lemma fixupRounds_mset: "mset (fst (fixupRounds n st)) = mset (fst st)"
  by (induction n arbitrary: st) (simp_all add: putMasterDetailsBefore_mset)

lemma addObject_mset:
  "mset (tasks (addObject st io)) =
     add_mset \<lparr>taskId = fst io, scriptObject = setProcessAll (snd io)\<rparr> (mset (tasks st))"
  by (simp add: addObject_def Let_def mset_splice_insert)

lemma foldl_addObject_mset:
  "mset (tasks (foldl addObject st ios)) =
     mset (tasks st) + mset (map (\<lambda>io. \<lparr>taskId = fst io, scriptObject = setProcessAll (snd io)\<rparr>) ios)"
  by (induction ios arbitrary: st) (simp_all add: addObject_mset)

lemma placeTasks_mset:
  "mset (tasks (placeTasks objects)) =
     mset (map (\<lambda>io. \<lparr>taskId = fst io, scriptObject = setProcessAll (snd io)\<rparr>)
            (zip [0 ..< length objects] objects))"
  by (simp add: placeTasks_def foldl_addObject_mset)

lemma placeTasks_distinct: "distinct (tasks (placeTasks objects))"
proof -
  have "mset (map taskId (tasks (placeTasks objects))) = mset [0 ..< length objects]"
  proof -
    let ?f = "\<lambda>io. \<lparr>taskId = fst io, scriptObject = setProcessAll (snd io)\<rparr>"
    have ids: "map taskId (map ?f (zip [0 ..< length objects] objects)) = [0 ..< length objects]"
      by (simp add: comp_def)
    have "mset (map taskId (tasks (placeTasks objects))) =
          image_mset taskId (mset (tasks (placeTasks objects)))"
      by (rule mset_map)
    also have "\<dots> = image_mset taskId (mset (map ?f (zip [0 ..< length objects] objects)))"
      by (simp only: placeTasks_mset)
    also have "\<dots> = mset (map taskId (map ?f (zip [0 ..< length objects] objects)))"
      by (rule mset_map [symmetric])
    finally show ?thesis
      by (simp only: ids)
  qed
  then have "distinct (map taskId (tasks (placeTasks objects)))"
    using mset_eq_imp_distinct_iff [of "map taskId (tasks (placeTasks objects))" "[0 ..< length objects]"]
    by simp
  then show ?thesis by (simp add: distinct_map)
qed

lemma scheduled_distinct:
  "distinct (fst (fixupRounds n (tasks (placeTasks objects), s)))"
  using fixupRounds_mset [of n "(tasks (placeTasks objects), s)"] placeTasks_distinct [of objects]
    mset_eq_imp_distinct_iff by fastforce

subsection \<open>Evaluating the scheduler on the examples\<close>

lemmas place_defs = placeTasks_def addObject_def setProcessAll_def descriptor_def
  RECORD_TYPE_SOBJECT_NAME_def splice_insert_def splice_start_def Let_def

lemmas pass_defs = putMasterDetailsBefore_def swapStep_def splice_insert_def splice_remove_def
  splice_start_def sObjectName_def descriptor_def Let_def

lemma fixupRounds_swapping:
  "putMasterDetailsBefore ts = (ts, True) \<Longrightarrow> fixupRounds (Suc n) (ts, s) = (ts, True)"
  by (induction n arbitrary: s) simp_all

lemma fixupRounds_settled:
  "putMasterDetailsBefore ts = (ts, False) \<Longrightarrow> fst (fixupRounds n (ts, s)) = ts"
  by (cases n) (simp_all add: fixupRounds_fixed del: fixupRounds.simps(2))

subsection \<open>The query order\<close>

lemma foldl_pushQueryFirst:
  "foldl pushQueryFirst acc ts = acc @ filter isQueryFirst ts"
  by (induction ts arbitrary: acc) (simp_all add: pushQueryFirst_def)

lemma foldl_pushQueryRest:
  "distinct ts \<Longrightarrow> foldl pushQueryRest acc ts = acc @ filter (\<lambda>t. t \<notin> set acc) ts"
proof (induction ts arbitrary: acc)
  case Nil
  then show ?case by simp
next
  case (Cons t ts)
  show ?case
  proof (cases "t \<in> set acc")
    case True
    then show ?thesis
      using Cons by (simp add: pushQueryRest_def indexOf_negative)
  next
    case False
    have "filter (\<lambda>u. u \<notin> set (acc @ [t])) ts = filter (\<lambda>u. u \<notin> set acc) ts"
      using Cons.prems by (intro filter_cong) auto
    then show ?thesis
      using Cons False by (simp add: pushQueryRest_def indexOf_negative)
  qed
qed

lemma makeQueryTasks_partition:
  assumes "distinct ts"
  shows "makeQueryTasks ts = filter isQueryFirst ts @ filter (\<lambda>t. \<not> isQueryFirst t) ts"
proof -
  have "filter (\<lambda>t. t \<notin> set (filter isQueryFirst ts)) ts = filter (\<lambda>t. \<not> isQueryFirst t) ts"
    by (intro filter_cong) auto
  then show ?thesis
    using assms by (simp add: makeQueryTasks_def foldl_pushQueryFirst foldl_pushQueryRest)
qed

lemma mset_partition: "mset (filter P ts @ filter (\<lambda>t. \<not> P t) ts) = mset ts"
  by (induction ts) simp_all

lemma place_exampleQueryOrder:
  "tasks (placeTasks exampleQueryOrder) =
     [\<lparr>taskId = 1, scriptObject = descriptor ''DetailP2'' [''P''] [''P''] True\<rparr>,
      \<lparr>taskId = 0, scriptObject = (descriptor ''DetailP1'' [''P''] [''P''] True)
         \<lparr>allRecords := True, processAllSource := True, processAllTarget := True\<rparr>\<rparr>,
      \<lparr>taskId = 2, scriptObject = (descriptor ''P'' [] [] False)\<lparr>isLimitedQuery := True\<rparr>\<rparr>]"
  by (simp add: exampleQueryOrder_def place_defs)

lemma pass_exampleQueryOrder:
  "putMasterDetailsBefore
     [\<lparr>taskId = 1, scriptObject = descriptor ''DetailP2'' [''P''] [''P''] True\<rparr>,
      \<lparr>taskId = 0, scriptObject = (descriptor ''DetailP1'' [''P''] [''P''] True)
         \<lparr>allRecords := True, processAllSource := True, processAllTarget := True\<rparr>\<rparr>,
      \<lparr>taskId = 2, scriptObject = (descriptor ''P'' [] [] False)\<lparr>isLimitedQuery := True\<rparr>\<rparr>] =
     ([\<lparr>taskId = 1, scriptObject = descriptor ''DetailP2'' [''P''] [''P''] True\<rparr>,
       \<lparr>taskId = 0, scriptObject = (descriptor ''DetailP1'' [''P''] [''P''] True)
          \<lparr>allRecords := True, processAllSource := True, processAllTarget := True\<rparr>\<rparr>,
       \<lparr>taskId = 2, scriptObject = (descriptor ''P'' [] [] False)\<lparr>isLimitedQuery := True\<rparr>\<rparr>],
      True)"
  by (simp add: pass_defs)

lemma setup_exampleQueryOrder:
  "MigrationJob_setup exampleQueryOrder =
     Some \<lparr>job_tasks =
             [\<lparr>taskId = 1, scriptObject = descriptor ''DetailP2'' [''P''] [''P''] True\<rparr>,
              \<lparr>taskId = 0, scriptObject = (descriptor ''DetailP1'' [''P''] [''P''] True)
                 \<lparr>allRecords := True, processAllSource := True, processAllTarget := True\<rparr>\<rparr>,
              \<lparr>taskId = 2, scriptObject = (descriptor ''P'' [] [] False)\<lparr>isLimitedQuery := True\<rparr>\<rparr>],
           job_queryTasks =
             [\<lparr>taskId = 0, scriptObject = (descriptor ''DetailP1'' [''P''] [''P''] True)
                 \<lparr>allRecords := True, processAllSource := True, processAllTarget := True\<rparr>\<rparr>,
              \<lparr>taskId = 2, scriptObject = (descriptor ''P'' [] [] False)\<lparr>isLimitedQuery := True\<rparr>\<rparr>,
              \<lparr>taskId = 1, scriptObject = descriptor ''DetailP2'' [''P''] [''P''] True\<rparr>]\<rparr>"
proof -
  have "fixupRounds 10 (tasks (placeTasks exampleQueryOrder), True) =
        (tasks (placeTasks exampleQueryOrder), True)"
    using fixupRounds_swapping [OF pass_exampleQueryOrder, of 9 True]
    by (simp only: place_exampleQueryOrder) simp
  then show ?thesis
    by (simp add: MigrationJob_setup_result place_exampleQueryOrder makeQueryTasks_def
        pushQueryFirst_def pushQueryRest_def isQueryFirst_def sourceData_allRecords_def
        descriptor_def)
qed

lemma makeQueryTasks_rounds:
  "makeQueryTasks (fst (fixupRounds n (tasks (placeTasks objects), s))) =
     filter isQueryFirst (fst (fixupRounds n (tasks (placeTasks objects), s)))
     @ filter (\<lambda>task. \<not> isQueryFirst task) (fst (fixupRounds n (tasks (placeTasks objects), s)))"
  by (rule makeQueryTasks_partition) (rule scheduled_distinct)

text \<open>
  On every job on which the call returns, the query order is the stable
  partition of the execution order, and a permutation of it.
\<close>

lemma queryTasks_partition_on_return:
  assumes "MigrationJob_setup objects = Some job"
  shows "job_queryTasks job =
           filter isQueryFirst (job_tasks job) @ filter (\<lambda>task. \<not> isQueryFirst task) (job_tasks job)
         \<and> mset (job_queryTasks job) = mset (job_tasks job)"
proof -
  let ?st = "fixupRounds 10 (tasks (placeTasks objects), True)"
  from assms have job: "job = \<lparr>job_tasks = fst ?st, job_queryTasks = makeQueryTasks (fst ?st)\<rparr>"
    by (simp add: MigrationJob_setup_result Let_def split: if_splits)
  have "distinct (fst ?st)"
    by (rule scheduled_distinct)
  then have q: "makeQueryTasks (fst ?st) =
              filter isQueryFirst (fst ?st) @ filter (\<lambda>task. \<not> isQueryFirst task) (fst ?st)"
    by (rule makeQueryTasks_partition)
  show ?thesis
    unfolding job using q mset_partition [of isQueryFirst "fst ?st"] by simp
qed

text \<open>
  A job on which the call returns: the execution order is
  \<open>[DetailP2, DetailP1, P]\<close>, the query order \<open>[DetailP1, P, DetailP2]\<close>.
\<close>

lemma queryTasks_exampleQueryOrder:
  "taskNames (job_tasks (the (MigrationJob_setup exampleQueryOrder))) =
     [''DetailP2'', ''DetailP1'', ''P'']
   \<and> taskNames (job_queryTasks (the (MigrationJob_setup exampleQueryOrder))) =
     [''DetailP1'', ''P'', ''DetailP2'']"
  by (simp add: setup_exampleQueryOrder taskNames_def sObjectName_def descriptor_def)

lemma place_exampleLimitedContact:
  "tasks (placeTasks exampleLimitedContact) =
     [\<lparr>taskId = 0, scriptObject = descriptor ''Account'' [] [] False\<rparr>,
      \<lparr>taskId = 1, scriptObject =
         (descriptor ''Contact'' [''Account''] [] False)\<lparr>isLimitedQuery := True\<rparr>\<rparr>]"
  by (simp add: exampleLimitedContact_def place_defs)

lemma pass_exampleLimitedContact:
  "putMasterDetailsBefore
     [\<lparr>taskId = 0, scriptObject = descriptor ''Account'' [] [] False\<rparr>,
      \<lparr>taskId = 1, scriptObject =
         (descriptor ''Contact'' [''Account''] [] False)\<lparr>isLimitedQuery := True\<rparr>\<rparr>] =
     ([\<lparr>taskId = 0, scriptObject = descriptor ''Account'' [] [] False\<rparr>,
       \<lparr>taskId = 1, scriptObject =
          (descriptor ''Contact'' [''Account''] [] False)\<lparr>isLimitedQuery := True\<rparr>\<rparr>], False)"
  by (simp add: pass_defs)

text \<open>
  Claim C7: for every descriptor set, the list \<^verbatim>\<open>queryTasks\<close> that
  \<^verbatim>\<open>MigrationJob.setup\<close> produces is a permutation of \<^verbatim>\<open>tasks\<close> in which all tasks
  whose object is fetch-all (\<^verbatim>\<open>sourceData.allRecords\<close>) or limited-query come
  first and all other tasks follow, the relative order of \<^verbatim>\<open>tasks\<close> being kept
  within each of the two groups. The two loops that fill \<^verbatim>\<open>queryTasks\<close> do build
  that list from any task list the scheduler can hold, but they stand behind the
  fix-up loop, which an ordinary job never leaves: for \<open>Account\<close> and \<open>Contact\<close>
  the execution order is \<open>[Account, Contact]\<close> from the placement on, the query
  order would be \<open>[Contact, Account]\<close>, and the call does not return, so that
  \<^verbatim>\<open>queryTasks\<close> is never filled.
\<close>

theorem C7_queryTasks_never_built:
  "MigrationJob_setup exampleLimitedContact = None
   \<and> taskNames (fst (fixupRounds 10 (tasks (placeTasks exampleLimitedContact), True))) =
       [''Account'', ''Contact'']
   \<and> taskNames (makeQueryTasks (fst (fixupRounds 10 (tasks (placeTasks exampleLimitedContact), True)))) =
       [''Contact'', ''Account'']"
proof -
  let ?ts = "[\<lparr>taskId = 0, scriptObject = descriptor ''Account'' [] [] False\<rparr>,
              \<lparr>taskId = 1, scriptObject =
                 (descriptor ''Contact'' [''Account''] [] False)\<lparr>isLimitedQuery := True\<rparr>\<rparr>]"
  have st: "fixupRounds 10 (tasks (placeTasks exampleLimitedContact), True) = (?ts, False)"
    using fixupRounds_fixed [OF pass_exampleLimitedContact, of 9 True]
    by (simp only: place_exampleLimitedContact) simp
  have a: "MigrationJob_setup exampleLimitedContact = None"
    by (simp add: MigrationJob_setup_result st)
  have b: "taskNames (fst (fixupRounds 10 (tasks (placeTasks exampleLimitedContact), True))) =
           [''Account'', ''Contact'']"
    by (simp only: st) (simp add: taskNames_def sObjectName_def descriptor_def)
  have c: "taskNames (makeQueryTasks (fst (fixupRounds 10 (tasks (placeTasks exampleLimitedContact), True)))) =
           [''Contact'', ''Account'']"
    by (simp only: st)
      (simp add: taskNames_def sObjectName_def descriptor_def makeQueryTasks_def
        pushQueryFirst_def pushQueryRest_def isQueryFirst_def sourceData_allRecords_def)
  from a b c show ?thesis
    by blast
qed

subsection \<open>The scheduling example\<close>

lemma place_exampleCAB:
  "tasks (placeTasks exampleCAB) =
     [\<lparr>taskId = 0, scriptObject = descriptor ''C'' [] [''B''] False\<rparr>,
      \<lparr>taskId = 1, scriptObject = descriptor ''A'' [] [] False\<rparr>,
      \<lparr>taskId = 2, scriptObject = descriptor ''B'' [''A''] [] False\<rparr>]"
  by (simp add: exampleCAB_def place_defs)

lemma pass1_exampleCAB:
  "putMasterDetailsBefore
     [\<lparr>taskId = 0, scriptObject = descriptor ''C'' [] [''B''] False\<rparr>,
      \<lparr>taskId = 1, scriptObject = descriptor ''A'' [] [] False\<rparr>,
      \<lparr>taskId = 2, scriptObject = descriptor ''B'' [''A''] [] False\<rparr>] =
     ([\<lparr>taskId = 2, scriptObject = descriptor ''B'' [''A''] [] False\<rparr>,
       \<lparr>taskId = 0, scriptObject = descriptor ''C'' [] [''B''] False\<rparr>,
       \<lparr>taskId = 1, scriptObject = descriptor ''A'' [] [] False\<rparr>], True)"
  by (simp add: pass_defs)

lemma pass2_exampleCAB:
  "putMasterDetailsBefore
     [\<lparr>taskId = 2, scriptObject = descriptor ''B'' [''A''] [] False\<rparr>,
      \<lparr>taskId = 0, scriptObject = descriptor ''C'' [] [''B''] False\<rparr>,
      \<lparr>taskId = 1, scriptObject = descriptor ''A'' [] [] False\<rparr>] =
     ([\<lparr>taskId = 2, scriptObject = descriptor ''B'' [''A''] [] False\<rparr>,
       \<lparr>taskId = 0, scriptObject = descriptor ''C'' [] [''B''] False\<rparr>,
       \<lparr>taskId = 1, scriptObject = descriptor ''A'' [] [] False\<rparr>], False)"
  by (simp add: pass_defs)

lemma rounds_exampleCAB:
  "taskNames (fst (fixupRounds (Suc n) (tasks (placeTasks exampleCAB), True))) = [''B'', ''C'', ''A'']"
proof -
  have "fst (fixupRounds (Suc n) (tasks (placeTasks exampleCAB), True)) =
        [\<lparr>taskId = 2, scriptObject = descriptor ''B'' [''A''] [] False\<rparr>,
         \<lparr>taskId = 0, scriptObject = descriptor ''C'' [] [''B''] False\<rparr>,
         \<lparr>taskId = 1, scriptObject = descriptor ''A'' [] [] False\<rparr>]"
    by (simp only: fixupRounds.simps fst_conv place_exampleCAB pass1_exampleCAB
        fixupRounds_settled [OF pass2_exampleCAB])
  then show ?thesis
    by (simp add: taskNames_def sObjectName_def descriptor_def)
qed

lemma place_exampleCAB_lookup:
  "tasks (placeTasks exampleCAB_lookup) =
     [\<lparr>taskId = 2, scriptObject = descriptor ''B'' [''A''] [] False\<rparr>,
      \<lparr>taskId = 0, scriptObject = descriptor ''C'' [''B''] [''B''] False\<rparr>,
      \<lparr>taskId = 1, scriptObject = descriptor ''A'' [] [] False\<rparr>]"
  by (simp add: exampleCAB_lookup_def place_defs)

lemma pass_exampleCAB_lookup:
  "putMasterDetailsBefore
     [\<lparr>taskId = 2, scriptObject = descriptor ''B'' [''A''] [] False\<rparr>,
      \<lparr>taskId = 0, scriptObject = descriptor ''C'' [''B''] [''B''] False\<rparr>,
      \<lparr>taskId = 1, scriptObject = descriptor ''A'' [] [] False\<rparr>] =
     ([\<lparr>taskId = 2, scriptObject = descriptor ''B'' [''A''] [] False\<rparr>,
       \<lparr>taskId = 0, scriptObject = descriptor ''C'' [''B''] [''B''] False\<rparr>,
       \<lparr>taskId = 1, scriptObject = descriptor ''A'' [] [] False\<rparr>], False)"
  by (simp add: pass_defs)

lemma rounds_exampleCAB_lookup:
  "taskNames (fst (fixupRounds n (tasks (placeTasks exampleCAB_lookup), True))) = [''B'', ''C'', ''A'']"
proof -
  have "fst (fixupRounds n (tasks (placeTasks exampleCAB_lookup), True)) =
        [\<lparr>taskId = 2, scriptObject = descriptor ''B'' [''A''] [] False\<rparr>,
         \<lparr>taskId = 0, scriptObject = descriptor ''C'' [''B''] [''B''] False\<rparr>,
         \<lparr>taskId = 1, scriptObject = descriptor ''A'' [] [] False\<rparr>]"
    by (simp only: place_exampleCAB_lookup fixupRounds_settled [OF pass_exampleCAB_lookup])
  then show ?thesis
    by (simp add: taskNames_def sObjectName_def descriptor_def)
qed

text \<open>
  Claim C2 says that for \<open>A\<close> (no parents), \<open>B\<close> (parent lookup to \<open>A\<close>) and \<open>C\<close>
  (master-detail parent \<open>B\<close>), given in the order \<open>[C, A, B]\<close>, the resulting
  order of \<^verbatim>\<open>tasks\<close> is exactly \<open>[A, B, C]\<close>. It is not: the task list at the end
  of the tenth fix-up round differs, and the call yields no list at all.
\<close>

theorem C2_order_counterexample:
  "taskNames (fst (fixupRounds 10 (tasks (placeTasks exampleCAB), True))) \<noteq> [''A'', ''B'', ''C'']
   \<and> MigrationJob_setup exampleCAB = None"
proof -
  have r: "taskNames (fst (fixupRounds 10 (tasks (placeTasks exampleCAB), True))) = [''B'', ''C'', ''A'']"
    using rounds_exampleCAB [of 9] by simp
  have "fixupRounds (Suc 9) (tasks (placeTasks exampleCAB), True) =
        fixupRounds 9
          ([\<lparr>taskId = 2, scriptObject = descriptor ''B'' [''A''] [] False\<rparr>,
            \<lparr>taskId = 0, scriptObject = descriptor ''C'' [] [''B''] False\<rparr>,
            \<lparr>taskId = 1, scriptObject = descriptor ''A'' [] [] False\<rparr>], True)"
    by (simp only: fixupRounds.simps fst_conv place_exampleCAB pass1_exampleCAB)
  then have "snd (fixupRounds 10 (tasks (placeTasks exampleCAB), True)) = False"
    using fixupRounds_fixed [OF pass2_exampleCAB, of 8 True] by simp
  then have "MigrationJob_setup exampleCAB = None"
    by (simp add: MigrationJob_setup_result Let_def)
  with r show ?thesis
    by simp
qed

text \<open>
  Claim C2 as amended: for that input the placement leaves the order \<open>[C, A, B]\<close>
  (nothing looks \<open>A\<close> or \<open>B\<close> up when they arrive), the first fix-up round moves
  \<open>B\<close> in front of its detail \<open>C\<close>, and the order of \<^verbatim>\<open>tasks\<close> after the first
  fix-up round and after every later one is \<open>[B, C, A]\<close>. The order is the same
  when \<open>B\<close> is also listed among the parent lookups of \<open>C\<close> (then the placement
  already gives it).
\<close>

theorem C2_order_after_fixup:
  "taskNames (tasks (placeTasks exampleCAB)) = [''C'', ''A'', ''B'']
   \<and> taskNames (fst (fixupRounds (Suc n) (tasks (placeTasks exampleCAB), True))) = [''B'', ''C'', ''A'']
   \<and> taskNames (fst (fixupRounds n (tasks (placeTasks exampleCAB_lookup), True))) = [''B'', ''C'', ''A'']"
  using rounds_exampleCAB [of n] rounds_exampleCAB_lookup [of n]
  by (simp add: place_exampleCAB taskNames_def sObjectName_def descriptor_def
      del: fixupRounds.simps)

subsection \<open>The zones of the task chain\<close>

text \<open>
  The placement keeps the three zones, for every list of descriptors: a
  \<open>RecordType\<close> object is put at the head, a readonly object at the head of the
  readonly zone, and any other object at or behind \<^verbatim>\<open>lowerIndexForAnyObjects\<close>.
\<close>

lemma nth_inserted:
  "k \<le> length xs \<Longrightarrow> i \<le> length xs \<Longrightarrow>
   (take k xs @ x # drop k xs) ! i = (if i < k then xs ! i else if i = k then x else xs ! (i - 1))"
  by (auto simp: nth_append nth_Cons' min_def)

lemma splice_insert_nat:
  "k \<le> length xs \<Longrightarrow> splice_insert xs (int k) x = take k xs @ x # drop k xs"
  by (simp add: splice_insert_def splice_start_def)

lemma scanIndexToInsert_bounds:
  "lower \<le> acc \<Longrightarrow> acc \<le> n \<Longrightarrow> k \<le> n \<Longrightarrow>
   lower \<le> scanIndexToInsert k ts lower nm acc \<and> scanIndexToInsert k ts lower nm acc \<le> n"
  by (induction k arbitrary: acc) auto

lemma zoneOf_newTask:
  "zoneOf \<lparr>taskId = i, scriptObject = setProcessAll obj\<rparr> =
     (if name obj = RECORD_TYPE_SOBJECT_NAME then 0 else if isReadonlyObject obj then 1 else 2)"
  by (simp add: zoneOf_def sObjectName_def setProcessAll_def)

lemma name_setProcessAll: "name (setProcessAll obj) = name obj"
  by (simp add: setProcessAll_def)

lemma isReadonlyObject_setProcessAll: "isReadonlyObject (setProcessAll obj) = isReadonlyObject obj"
  by (simp add: setProcessAll_def)

lemma addObject_zonesPlaced:
  assumes "zonesPlaced st"
  shows "zonesPlaced (addObject st io)"
proof -
  let ?new = "\<lparr>taskId = fst io, scriptObject = setProcessAll (snd io)\<rparr>"
  let ?ro = "lowerIndexForReadonlyObjects st" and ?any = "lowerIndexForAnyObjects st"
  from assms have le: "?ro \<le> ?any" "?any \<le> length (tasks st)"
    and z: "\<And>i. i < length (tasks st) \<Longrightarrow>
            zoneOf (tasks st ! i) = (if i < ?ro then 0 else if i < ?any then 1 else 2)"
    by (simp_all add: zonesPlaced_def)
  consider (special) "name (snd io) = RECORD_TYPE_SOBJECT_NAME"
    | (readonly) "name (snd io) \<noteq> RECORD_TYPE_SOBJECT_NAME" "isReadonlyObject (snd io)"
    | (other) "name (snd io) \<noteq> RECORD_TYPE_SOBJECT_NAME" "\<not> isReadonlyObject (snd io)"
    by blast
  then show ?thesis
  proof cases
    case special
    then have st': "addObject st io =
        st\<lparr>tasks := ?new # tasks st, lowerIndexForAnyObjects := ?any + 1,
           lowerIndexForReadonlyObjects := ?ro + 1\<rparr>"
      by (simp add: addObject_def Let_def name_setProcessAll)
    show ?thesis
      unfolding st' zonesPlaced_def using le z special
      by (auto simp: nth_Cons' zoneOf_newTask)
  next
    case readonly
    then have st': "addObject st io =
        st\<lparr>tasks := take ?ro (tasks st) @ ?new # drop ?ro (tasks st),
           lowerIndexForAnyObjects := ?any + 1\<rparr>"
      using le by (simp add: addObject_def Let_def name_setProcessAll
          isReadonlyObject_setProcessAll splice_insert_nat)
    have "?ro \<le> length (tasks st)" using le by simp
    then show ?thesis
      unfolding st' zonesPlaced_def using le z readonly
      by (auto simp: nth_inserted zoneOf_newTask)
  next
    case other
    define k where "k = (if length (tasks st) = 0 then 0
       else scanIndexToInsert (length (tasks st)) (tasks st) ?any (name (setProcessAll (snd io)))
              (length (tasks st)))"
    have k: "?any \<le> k" "k \<le> length (tasks st)"
      using le scanIndexToInsert_bounds [of ?any "length (tasks st)" "length (tasks st)"
          "length (tasks st)" "tasks st" "name (setProcessAll (snd io))"]
      by (auto simp: k_def)
    have st': "addObject st io = st\<lparr>tasks := take k (tasks st) @ ?new # drop k (tasks st)\<rparr>"
      using other k(2)
      by (auto simp: addObject_def Let_def name_setProcessAll isReadonlyObject_setProcessAll
          splice_insert_nat k_def)
    show ?thesis
      unfolding st' zonesPlaced_def using le z other k
      by (auto simp: nth_inserted zoneOf_newTask)
  qed
qed

lemma foldl_addObject_zonesPlaced:
  "zonesPlaced st \<Longrightarrow> zonesPlaced (foldl addObject st ios)"
  by (induction ios arbitrary: st) (simp_all add: addObject_zonesPlaced)

lemma placeTasks_zonesPlaced: "zonesPlaced (placeTasks objects)"
  unfolding placeTasks_def by (rule foldl_addObject_zonesPlaced) (simp add: zonesPlaced_def)

lemma placeTasks_zonesInOrder: "zonesInOrder (tasks (placeTasks objects))"
proof -
  let ?st = "placeTasks objects"
  have p: "zonesPlaced ?st" by (rule placeTasks_zonesPlaced)
  show ?thesis
    unfolding zonesInOrder_def sorted_iff_nth_mono
  proof (intro allI impI)
    fix i j assume "i \<le> j" "j < length (map zoneOf (tasks ?st))"
    then show "map zoneOf (tasks ?st) ! i \<le> map zoneOf (tasks ?st) ! j"
      using p by (auto simp: zonesPlaced_def)
  qed
qed

lemma place_exampleReadonlyDetails:
  "tasks (placeTasks exampleReadonlyDetails) =
     [\<lparr>taskId = 2, scriptObject = descriptor ''DetailQ'' [''Q''] [''Q''] True\<rparr>,
      \<lparr>taskId = 1, scriptObject = descriptor ''DetailP2'' [''P''] [''P''] True\<rparr>,
      \<lparr>taskId = 0, scriptObject = descriptor ''DetailP1'' [''P''] [''P''] True\<rparr>,
      \<lparr>taskId = 3, scriptObject = descriptor ''P'' [] [] False\<rparr>,
      \<lparr>taskId = 4, scriptObject = descriptor ''Q'' [] [] False\<rparr>]"
  by (simp add: exampleReadonlyDetails_def place_defs)

lemma pass1_exampleReadonlyDetails:
  "putMasterDetailsBefore
     [\<lparr>taskId = 2, scriptObject = descriptor ''DetailQ'' [''Q''] [''Q''] True\<rparr>,
      \<lparr>taskId = 1, scriptObject = descriptor ''DetailP2'' [''P''] [''P''] True\<rparr>,
      \<lparr>taskId = 0, scriptObject = descriptor ''DetailP1'' [''P''] [''P''] True\<rparr>,
      \<lparr>taskId = 3, scriptObject = descriptor ''P'' [] [] False\<rparr>,
      \<lparr>taskId = 4, scriptObject = descriptor ''Q'' [] [] False\<rparr>] =
     ([\<lparr>taskId = 4, scriptObject = descriptor ''Q'' [] [] False\<rparr>,
       \<lparr>taskId = 2, scriptObject = descriptor ''DetailQ'' [''Q''] [''Q''] True\<rparr>,
       \<lparr>taskId = 1, scriptObject = descriptor ''DetailP2'' [''P''] [''P''] True\<rparr>,
       \<lparr>taskId = 0, scriptObject = descriptor ''DetailP1'' [''P''] [''P''] True\<rparr>,
       \<lparr>taskId = 3, scriptObject = descriptor ''P'' [] [] False\<rparr>], True)"
  by (simp add: pass_defs)

lemma pass2_exampleReadonlyDetails:
  "putMasterDetailsBefore
     [\<lparr>taskId = 4, scriptObject = descriptor ''Q'' [] [] False\<rparr>,
      \<lparr>taskId = 2, scriptObject = descriptor ''DetailQ'' [''Q''] [''Q''] True\<rparr>,
      \<lparr>taskId = 1, scriptObject = descriptor ''DetailP2'' [''P''] [''P''] True\<rparr>,
      \<lparr>taskId = 0, scriptObject = descriptor ''DetailP1'' [''P''] [''P''] True\<rparr>,
      \<lparr>taskId = 3, scriptObject = descriptor ''P'' [] [] False\<rparr>] =
     ([\<lparr>taskId = 4, scriptObject = descriptor ''Q'' [] [] False\<rparr>,
       \<lparr>taskId = 2, scriptObject = descriptor ''DetailQ'' [''Q''] [''Q''] True\<rparr>,
       \<lparr>taskId = 1, scriptObject = descriptor ''DetailP2'' [''P''] [''P''] True\<rparr>,
       \<lparr>taskId = 0, scriptObject = descriptor ''DetailP1'' [''P''] [''P''] True\<rparr>,
       \<lparr>taskId = 3, scriptObject = descriptor ''P'' [] [] False\<rparr>], True)"
  by (simp add: pass_defs)

lemma setup_exampleReadonlyDetails:
  "MigrationJob_setup exampleReadonlyDetails =
     Some \<lparr>job_tasks =
             [\<lparr>taskId = 4, scriptObject = descriptor ''Q'' [] [] False\<rparr>,
              \<lparr>taskId = 2, scriptObject = descriptor ''DetailQ'' [''Q''] [''Q''] True\<rparr>,
              \<lparr>taskId = 1, scriptObject = descriptor ''DetailP2'' [''P''] [''P''] True\<rparr>,
              \<lparr>taskId = 0, scriptObject = descriptor ''DetailP1'' [''P''] [''P''] True\<rparr>,
              \<lparr>taskId = 3, scriptObject = descriptor ''P'' [] [] False\<rparr>],
           job_queryTasks =
             [\<lparr>taskId = 4, scriptObject = descriptor ''Q'' [] [] False\<rparr>,
              \<lparr>taskId = 2, scriptObject = descriptor ''DetailQ'' [''Q''] [''Q''] True\<rparr>,
              \<lparr>taskId = 1, scriptObject = descriptor ''DetailP2'' [''P''] [''P''] True\<rparr>,
              \<lparr>taskId = 0, scriptObject = descriptor ''DetailP1'' [''P''] [''P''] True\<rparr>,
              \<lparr>taskId = 3, scriptObject = descriptor ''P'' [] [] False\<rparr>]\<rparr>"
proof -
  have "fixupRounds 10 (tasks (placeTasks exampleReadonlyDetails), True) =
        fixupRounds (Suc 8)
          (putMasterDetailsBefore (fst (tasks (placeTasks exampleReadonlyDetails), True)))"
    by (simp add: eval_nat_numeral)
  also have "\<dots> =
       ([\<lparr>taskId = 4, scriptObject = descriptor ''Q'' [] [] False\<rparr>,
         \<lparr>taskId = 2, scriptObject = descriptor ''DetailQ'' [''Q''] [''Q''] True\<rparr>,
         \<lparr>taskId = 1, scriptObject = descriptor ''DetailP2'' [''P''] [''P''] True\<rparr>,
         \<lparr>taskId = 0, scriptObject = descriptor ''DetailP1'' [''P''] [''P''] True\<rparr>,
         \<lparr>taskId = 3, scriptObject = descriptor ''P'' [] [] False\<rparr>], True)"
    by (simp only: fst_conv place_exampleReadonlyDetails pass1_exampleReadonlyDetails
        fixupRounds_swapping [OF pass2_exampleReadonlyDetails])
  finally show ?thesis
    by (simp add: MigrationJob_setup_result makeQueryTasks_def
        pushQueryFirst_def pushQueryRest_def isQueryFirst_def sourceData_allRecords_def
        descriptor_def)
qed

lemma place_exampleReadonlyDetail:
  "tasks (placeTasks exampleReadonlyDetail) =
     [\<lparr>taskId = 0, scriptObject = descriptor ''Detail'' [''Master''] [''Master''] True\<rparr>,
      \<lparr>taskId = 1, scriptObject = descriptor ''Master'' [] [] False\<rparr>]"
  by (simp add: exampleReadonlyDetail_def place_defs)

lemma pass1_exampleReadonlyDetail:
  "putMasterDetailsBefore
     [\<lparr>taskId = 0, scriptObject = descriptor ''Detail'' [''Master''] [''Master''] True\<rparr>,
      \<lparr>taskId = 1, scriptObject = descriptor ''Master'' [] [] False\<rparr>] =
     ([\<lparr>taskId = 1, scriptObject = descriptor ''Master'' [] [] False\<rparr>,
       \<lparr>taskId = 0, scriptObject = descriptor ''Detail'' [''Master''] [''Master''] True\<rparr>], True)"
  by (simp add: pass_defs)

lemma pass2_exampleReadonlyDetail:
  "putMasterDetailsBefore
     [\<lparr>taskId = 1, scriptObject = descriptor ''Master'' [] [] False\<rparr>,
      \<lparr>taskId = 0, scriptObject = descriptor ''Detail'' [''Master''] [''Master''] True\<rparr>] =
     ([\<lparr>taskId = 1, scriptObject = descriptor ''Master'' [] [] False\<rparr>,
       \<lparr>taskId = 0, scriptObject = descriptor ''Detail'' [''Master''] [''Master''] True\<rparr>], False)"
  by (simp add: pass_defs)

lemma rounds_exampleReadonlyDetail:
  "fst (fixupRounds (Suc n) (tasks (placeTasks exampleReadonlyDetail), True)) =
     [\<lparr>taskId = 1, scriptObject = descriptor ''Master'' [] [] False\<rparr>,
      \<lparr>taskId = 0, scriptObject = descriptor ''Detail'' [''Master''] [''Master''] True\<rparr>]"
  by (simp only: fixupRounds.simps fst_conv place_exampleReadonlyDetail
      pass1_exampleReadonlyDetail fixupRounds_settled [OF pass2_exampleReadonlyDetail])

text \<open>
  Claim C6: in the order of \<^verbatim>\<open>tasks\<close> produced by \<^verbatim>\<open>MigrationJob.setup\<close>, after
  the master-detail fix-up, a special entity (the \<open>RecordType\<close> object), if
  present, is first, and every readonly entity precedes every entity that is
  neither special nor readonly. The placement keeps these zones, as its comments
  say (\<open>placeTasks_zonesInOrder\<close>), but the fix-up moves a master in front of its
  detail across them. For
  three readonly details and their two masters the call returns a task chain
  that begins with the master \<open>Q\<close>; for one readonly detail and its master the
  master stands first after every fix-up round.
\<close>

theorem C6_fixup_breaks_zones:
  "zonesInOrder (tasks (placeTasks exampleReadonlyDetails))
   \<and> map_option (\<lambda>job. taskNames (job_tasks job)) (MigrationJob_setup exampleReadonlyDetails) =
       Some [''Q'', ''DetailQ'', ''DetailP2'', ''DetailP1'', ''P'']
   \<and> \<not> zonesInOrder (job_tasks (the (MigrationJob_setup exampleReadonlyDetails)))
   \<and> zonesInOrder (tasks (placeTasks exampleReadonlyDetail))
   \<and> taskNames (fst (fixupRounds (Suc n) (tasks (placeTasks exampleReadonlyDetail), True))) =
       [''Master'', ''Detail'']
   \<and> \<not> zonesInOrder (fst (fixupRounds (Suc n) (tasks (placeTasks exampleReadonlyDetail), True)))"
proof -
  note zone_defs = zonesInOrder_def zoneOf_def taskNames_def sObjectName_def descriptor_def
    RECORD_TYPE_SOBJECT_NAME_def
  have a: "zonesInOrder (tasks (placeTasks exampleReadonlyDetails))"
    by (simp add: place_exampleReadonlyDetails zone_defs)
  have b: "map_option (\<lambda>job. taskNames (job_tasks job)) (MigrationJob_setup exampleReadonlyDetails) =
           Some [''Q'', ''DetailQ'', ''DetailP2'', ''DetailP1'', ''P'']"
    by (simp add: setup_exampleReadonlyDetails zone_defs)
  have c: "\<not> zonesInOrder (job_tasks (the (MigrationJob_setup exampleReadonlyDetails)))"
    by (simp add: setup_exampleReadonlyDetails zone_defs)
  have d: "zonesInOrder (tasks (placeTasks exampleReadonlyDetail))"
    by (simp add: place_exampleReadonlyDetail zone_defs)
  have e: "taskNames (fst (fixupRounds (Suc n) (tasks (placeTasks exampleReadonlyDetail), True))) =
           [''Master'', ''Detail'']"
    by (simp only: rounds_exampleReadonlyDetail) (simp add: zone_defs)
  have f: "\<not> zonesInOrder (fst (fixupRounds (Suc n) (tasks (placeTasks exampleReadonlyDetail), True)))"
    by (simp only: rounds_exampleReadonlyDetail) (simp add: zone_defs)
  from a b c d e f show ?thesis
    by blast
qed

subsection \<open>Synthetic identifiers\<close>

declare numberToString.simps [simp del]

lemma of_char_digitChar: "d < 10 \<Longrightarrow> of_char (digitChar d) = 48 + d"
  by (simp add: digitChar_def)

lemma digitChar_0: "digitChar 0 = CHR ''0''"
  unfolding digitChar_def by code_simp

lemma digitChar_less: "x < y \<Longrightarrow> y < 10 \<Longrightarrow> digitChar x < digitChar y"
  by (simp add: less_char_def of_char_digitChar)

lemma snoc_less_snoc:
  "length xs = length ys \<Longrightarrow>
   (xs @ [a] < ys @ [b]) = (xs < ys \<or> xs = ys \<and> a < b)" for xs ys :: "char list"
  by (induction xs ys rule: list_induct2) auto

lemma numberToString_small: "n < 10 \<Longrightarrow> numberToString n = [digitChar n]"
  by (simp add: numberToString.simps)

lemma numberToString_large:
  "\<not> n < 10 \<Longrightarrow> numberToString n = numberToString (n div 10) @ [digitChar (n mod 10)]"
  by (subst numberToString.simps) simp

lemma addLeadnigZeros_Suc:
  assumes "1 \<le> k"
  shows "addLeadnigZeros n (Suc k) = addLeadnigZeros (n div 10) k @ [digitChar (n mod 10)]"
proof (cases "n < 10")
  case True
  from assms obtain j where k: "k = Suc j" by (cases k) auto
  have "replicate j (CHR ''0'') @ [CHR ''0''] = replicate (Suc j) (CHR ''0'')"
    by (simp add: replicate_append_same)
  then show ?thesis
    using True by (simp add: addLeadnigZeros_def numberToString_small k digitChar_0)
next
  case False
  then show ?thesis
    by (simp add: addLeadnigZeros_def numberToString_large)
qed

lemma addLeadnigZeros_1: "n < 10 \<Longrightarrow> addLeadnigZeros n (Suc 0) = [digitChar n]"
  by (simp add: addLeadnigZeros_def numberToString_small)

lemma length_addLeadnigZeros:
  "n < 10 ^ Suc k \<Longrightarrow> length (addLeadnigZeros n (Suc k)) = Suc k"
proof (induction k arbitrary: n)
  case 0
  then show ?case by (simp add: addLeadnigZeros_1)
next
  case (Suc k)
  then have "n div 10 < 10 ^ Suc k" by (simp add: less_mult_imp_div_less mult.commute)
  then show ?case
    using Suc.IH [of "n div 10"] by (simp add: addLeadnigZeros_Suc)
qed

lemma addLeadnigZeros_less:
  "a < b \<Longrightarrow> b < 10 ^ Suc k \<Longrightarrow> addLeadnigZeros a (Suc k) < addLeadnigZeros b (Suc k)"
proof (induction k arbitrary: a b)
  case 0
  then show ?case by (simp add: addLeadnigZeros_1 digitChar_less)
next
  case (Suc k)
  have b: "b div 10 < 10 ^ Suc k"
    using Suc.prems by (simp add: less_mult_imp_div_less mult.commute)
  have a: "a div 10 < 10 ^ Suc k"
    using Suc.prems by (simp add: less_mult_imp_div_less mult.commute)
  have len: "length (addLeadnigZeros (a div 10) (Suc k)) = length (addLeadnigZeros (b div 10) (Suc k))"
    using a b by (simp add: length_addLeadnigZeros)
  have le: "a div 10 \<le> b div 10"
    using Suc.prems(1) by (simp add: div_le_mono)
  show ?case
  proof (cases "a div 10 < b div 10")
    case True
    then have "addLeadnigZeros (a div 10) (Suc k) < addLeadnigZeros (b div 10) (Suc k)"
      using Suc.IH b by simp
    then show ?thesis
      using len by (simp add: addLeadnigZeros_Suc snoc_less_snoc)
  next
    case False
    with le have eq: "a div 10 = b div 10" by simp
    have "a mod 10 < b mod 10"
      using Suc.prems(1) eq by (metis div_mult_mod_eq nat_add_left_cancel_less)
    then have "digitChar (a mod 10) < digitChar (b mod 10)"
      by (simp add: digitChar_less)
    then show ?thesis
      using eq by (simp add: addLeadnigZeros_Suc snoc_less_snoc)
  qed
qed

lemma decimalValue_snoc: "decimalValue (s @ [ch]) = 10 * decimalValue s + (of_char ch - 48)"
  by (simp add: decimalValue_def)

lemma decimalValue_numberToString: "decimalValue (numberToString n) = n"
proof (induction n rule: numberToString.induct)
  case (1 n)
  show ?case
  proof (cases "n < 10")
    case True
    then show ?thesis
      by (simp add: numberToString_small decimalValue_def of_char_digitChar)
  next
    case False
    then show ?thesis
      using 1 by (simp add: numberToString_large decimalValue_snoc of_char_digitChar)
  qed
qed

lemma decimalValue_zeros: "decimalValue (replicate k (CHR ''0'') @ s) = decimalValue s"
proof -
  have "foldl (\<lambda>v ch. 10 * v + (of_char ch - 48)) 0 (replicate k (CHR ''0'')) = (0::nat)"
    by (induction k) simp_all
  then show ?thesis
    by (simp add: decimalValue_def)
qed

lemma decimalValue_addLeadnigZeros: "decimalValue (addLeadnigZeros n k) = n"
  by (simp add: addLeadnigZeros_def decimalValue_zeros decimalValue_numberToString)

lemma addLeadnigZeros_one: "addLeadnigZeros 1 16 = ''0000000000000001''"
  by code_simp

lemma addLeadnigZeros_two: "addLeadnigZeros 2 16 = ''0000000000000002''"
  by code_simp

lemma nextId_after_clear: "fst (nextId clear) = ''ID0000000000000001''"
proof -
  have "fst (nextId clear) = ''ID'' @ addLeadnigZeros 1 16"
    by (simp add: nextId_def clear_def)
  then show ?thesis
    by (simp only: addLeadnigZeros_one) simp
qed

lemma incrementNumber_exact: "v < 2 ^ 53 \<Longrightarrow> incrementNumber v = v + 1"
  by (simp add: incrementNumber_def)

text \<open>At \<open>2^53\<close> the counter sticks, and the identifier is given out again.\<close>

lemma nextId_stuck:
  "idCounter c = 2 ^ 53 \<Longrightarrow>
   idCounter (snd (nextId c)) = 2 ^ 53 \<and> fst (nextId (snd (nextId c))) = fst (nextId c)"
  by (simp add: nextId_def incrementNumber_def)

lemma nextIds_eq:
  "idCounter c + n \<le> 2 ^ 53 \<Longrightarrow>
   fst (nextIds n c) = map (\<lambda>k. ''ID'' @ addLeadnigZeros (idCounter c + k) 16) [0 ..< n]
   \<and> snd (nextIds n c) = c\<lparr>idCounter := idCounter c + n\<rparr>"
proof (induction n arbitrary: c)
  case 0
  then show ?case by simp
next
  case (Suc n)
  let ?c' = "c\<lparr>idCounter := idCounter c + 1\<rparr>"
  have "idCounter c < 2 ^ 53"
    using Suc.prems by simp
  then have step: "nextId c = (''ID'' @ addLeadnigZeros (idCounter c) 16, ?c')"
    by (simp add: nextId_def incrementNumber_exact)
  have split: "map (\<lambda>k. ''ID'' @ addLeadnigZeros (idCounter c + k) 16) [0 ..< Suc n] =
        (''ID'' @ addLeadnigZeros (idCounter c) 16)
        # map (\<lambda>k. ''ID'' @ addLeadnigZeros (idCounter ?c' + k) 16) [0 ..< n]"
    by (simp add: upt_conv_Cons map_Suc_upt [symmetric] del: upt_Suc)
  have "idCounter ?c' + n \<le> 2 ^ 53"
    using Suc.prems by simp
  from Suc.IH [OF this] have
    ih1: "fst (nextIds n ?c') = map (\<lambda>k. ''ID'' @ addLeadnigZeros (idCounter ?c' + k) 16) [0 ..< n]"
    and ih2: "snd (nextIds n ?c') = ?c'\<lparr>idCounter := idCounter ?c' + n\<rparr>"
    by blast+
  have "fst (nextIds (Suc n) c) =
        (''ID'' @ addLeadnigZeros (idCounter c) 16) # fst (nextIds n ?c')"
    by (simp add: Let_def step)
  then have a: "fst (nextIds (Suc n) c) =
        map (\<lambda>k. ''ID'' @ addLeadnigZeros (idCounter c + k) 16) [0 ..< Suc n]"
    by (simp only: ih1 split)
  have "snd (nextIds (Suc n) c) = snd (nextIds n ?c')"
    by (simp add: Let_def step)
  also have "\<dots> = ?c'\<lparr>idCounter := idCounter ?c' + n\<rparr>"
    by (rule ih2)
  also have "\<dots> = c\<lparr>idCounter := idCounter c + Suc n\<rparr>"
    by simp
  finally have b: "snd (nextIds (Suc n) c) = c\<lparr>idCounter := idCounter c + Suc n\<rparr>" .
  from a b show ?case ..
qed

text \<open>
  Claim C9: every read of \<^verbatim>\<open>nextId\<close> returns the two letters \<open>ID\<close> followed by
  the decimal value of the counter, padded with zeros to 16 digits; the counter
  starts at 1; all identifiers generated within one run are strictly increasing
  and pairwise distinct. (\<^verbatim>\<open>clear()\<close> sets the counter to 1: the constructor calls
  it, and \<^verbatim>\<open>validateCSVFiles\<close> calls it after the repair, when the identifiers of
  the run have been generated.) The identifiers are compared as strings, in
  lexicographic order. The hypothesis keeps the counter below \<open>2^53\<close>, where a
  JavaScript number counts exactly; every number below it has at most 16 digits.
\<close>

theorem C9_synthetic_ids:
  assumes "idCounter c + n < 2 ^ 53"
  shows "fst (nextId c) = ''ID'' @ addLeadnigZeros (idCounter c) 16
     \<and> idCounter (snd (nextId c)) = idCounter c + 1
     \<and> idCounter clear = 1
     \<and> fst (nextIds n c) = map (\<lambda>k. ''ID'' @ addLeadnigZeros (idCounter c + k) 16) [0 ..< n]
     \<and> list_all (\<lambda>ident. length ident = 18 \<and> take 2 ident = ''ID'') (fst (nextIds n c))
     \<and> map (\<lambda>ident. decimalValue (drop 2 ident)) (fst (nextIds n c)) =
         map (\<lambda>k. idCounter c + k) [0 ..< n]
     \<and> sorted_wrt (<) (fst (nextIds n c))
     \<and> distinct (fst (nextIds n c))"
proof -
  let ?f = "\<lambda>k. ''ID'' @ addLeadnigZeros (idCounter c + k) 16"
  have c: "idCounter c < 2 ^ 53" and le: "idCounter c + n \<le> 2 ^ 53"
    using assms by simp_all
  have ids: "fst (nextIds n c) = map ?f [0 ..< n]"
    using nextIds_eq [OF le] by simp
  have bound: "idCounter c + k < 10 ^ Suc 15" if "k < n" for k
  proof -
    have "idCounter c + k < 2 ^ 53" using assms that by simp
    also have "(2::nat) ^ 53 < 10 ^ Suc 15" by simp
    finally show ?thesis .
  qed
  have len: "length (addLeadnigZeros (idCounter c + k) 16) = 16" if "k < n" for k
    using length_addLeadnigZeros [OF bound [OF that]] by simp
  have shape: "list_all (\<lambda>ident. length ident = 18 \<and> take 2 ident = ''ID'') (fst (nextIds n c))"
    unfolding ids by (simp add: list_all_iff len)
  have vals: "map (\<lambda>ident. decimalValue (drop 2 ident)) (fst (nextIds n c)) =
              map (\<lambda>k. idCounter c + k) [0 ..< n]"
    unfolding ids by (simp add: decimalValue_addLeadnigZeros)
  have less: "?f i < ?f j" if "i < j" "j < n" for i j
    using addLeadnigZeros_less [of "idCounter c + i" "idCounter c + j" 15] bound [OF that(2)] that(1)
    by simp
  have "sorted_wrt (\<lambda>i j. ?f i < ?f j) [0 ..< n]"
    using less by (simp add: sorted_wrt_iff_nth_less)
  then have sorted: "sorted_wrt (<) (fst (nextIds n c))"
    unfolding ids by (simp add: sorted_wrt_map)
  then have "distinct (fst (nextIds n c))"
    using strict_sorted_iff by blast
  moreover have "idCounter (snd (nextId c)) = idCounter c + 1"
    using c by (simp add: nextId_def incrementNumber_exact)
  ultimately show ?thesis
    using ids shape vals sorted by (simp add: nextId_def clear_def)
qed

text \<open>The first two identifiers of a run.\<close>

theorem C9_synthetic_ids_witness:
  "idCounter clear + 2 < 2 ^ 53
   \<and> fst (nextIds 2 clear) = [''ID0000000000000001'', ''ID0000000000000002'']
   \<and> sorted_wrt (<) (fst (nextIds 2 clear))
   \<and> distinct (fst (nextIds 2 clear))"
proof -
  have h: "idCounter clear + 2 < 2 ^ 53"
    by (simp add: clear_def)
  from C9_synthetic_ids [OF h] have
    ids: "fst (nextIds 2 clear) =
            map (\<lambda>k. ''ID'' @ addLeadnigZeros (idCounter clear + k) 16) [0 ..< 2]"
    and sorted: "sorted_wrt (<) (fst (nextIds 2 clear))"
    and dist: "distinct (fst (nextIds 2 clear))"
    by blast+
  have "[0 ..< 2] = [0, Suc 0]"
    by (simp add: upt_rec)
  then have "map (\<lambda>k. ''ID'' @ addLeadnigZeros (idCounter clear + k) 16) [0 ..< 2] =
             [''ID'' @ addLeadnigZeros 1 16, ''ID'' @ addLeadnigZeros 2 16]"
    by (simp add: clear_def numeral_2_eq_2)
  then have "fst (nextIds 2 clear) = [''ID0000000000000001'', ''ID0000000000000002'']"
    by (simp only: ids addLeadnigZeros_one addLeadnigZeros_two) simp
  with h sorted dist show ?thesis
    by blast
qed

end
